theory Spec2Isabelle
  imports Complex_Main
begin

section \<open>ECMAScript strings\<close>

text \<open>
  The application is TypeScript. Its strings are modelled as \<^typ>\<open>string\<close>, each
  character read as the code unit of the same number (U+0000 to U+00FF), which covers
  the generated access codes, the column letters and the Portuguese headers and
  messages (the header for the average column has U+00E9). Characters above U+00FF are outside the model.
\<close>

definition charCode :: "char \<Rightarrow> nat" where
  "charCode c = of_char c"

definition isWhiteSpace :: "char \<Rightarrow> bool" where
  \<comment> \<open>WhiteSpace and LineTerminator below U+0100: TAB, LF, VT, FF, CR, SP, NBSP.\<close>
  "isWhiteSpace c = (charCode c = 9 \<or> charCode c = 10 \<or> charCode c = 11 \<or> charCode c = 12 \<or>
     charCode c = 13 \<or> charCode c = 32 \<or> charCode c = 160)"

definition trimStart :: "string \<Rightarrow> string" where
  "trimStart s = dropWhile isWhiteSpace s"

definition trim :: "string \<Rightarrow> string" where
  "trim s = rev (dropWhile isWhiteSpace (rev (dropWhile isWhiteSpace s)))"

definition lowerChar :: "char \<Rightarrow> char" where
  "lowerChar c =
     (if (65 \<le> charCode c \<and> charCode c \<le> 90) \<or> (192 \<le> charCode c \<and> charCode c \<le> 222 \<and> charCode c \<noteq> 215)
      then char_of (charCode c + 32) else c)"

definition toLowerCase :: "string \<Rightarrow> string" where
  "toLowerCase s = map lowerChar s"

text \<open>
  \<open>toUpperCase\<close> leaves the range of the model: the upper-case form of U+00B5 is
  U+039C and that of U+00FF is U+0178. Its result is therefore the list of the code
  units, and \<open>units\<close> gives the code units of a string of the model, so that
  \<open>x.toUpperCase() === y\<close> is \<open>toUpperCase x = units y\<close>. U+00DF maps to \<open>SS\<close>.
\<close>

definition units :: "string \<Rightarrow> nat list" where
  "units s = map charCode s"

definition upperUnits :: "char \<Rightarrow> nat list" where
  "upperUnits c =
     (if (97 \<le> charCode c \<and> charCode c \<le> 122) \<or>
         (224 \<le> charCode c \<and> charCode c \<le> 254 \<and> charCode c \<noteq> 247)
      then [charCode c - 32]
      else if charCode c = 223 then [83, 83]
      else if charCode c = 181 then [924]
      else if charCode c = 255 then [376]
      else [charCode c])"

definition toUpperCase :: "string \<Rightarrow> nat list" where
  "toUpperCase s = concat (map upperUnits s)"

definition fromUnits :: "nat list \<Rightarrow> string" where
  \<comment> \<open>The string of the model with these code units, for code units below 256.\<close>
  "fromUnits us = map char_of us"

fun str_includes :: "string \<Rightarrow> string \<Rightarrow> bool" where
  "str_includes [] sub = (sub = [])"
| "str_includes (c # s) sub = (take (length sub) (c # s) = sub \<or> str_includes s sub)"

fun replaceFirst :: "char \<Rightarrow> char \<Rightarrow> string \<Rightarrow> string" where
  \<comment> \<open>\<open>s.replace(a, b)\<close> with one-character string arguments: the first
      occurrence only.\<close>
  "replaceFirst a b [] = []"
| "replaceFirst a b (c # s) = (if c = a then b # s else c # replaceFirst a b s)"

section \<open>ECMAScript numbers\<close>

text \<open>
  A Number is an IEEE 754 binary64 value. A finite one is modelled by the rational it
  denotes (\<open>Fin\<close>), and every arithmetic result is rounded to the nearest binary64
  value by \<open>fl\<close> (ties to even, overflow to an infinity). The two zeros are one value:
  the code below only compares, adds, halves and prints numbers, and none of these
  tells \<open>-0\<close> from \<open>+0\<close>. The definitions are written as chains of small functions
  so that each argument is computed before it is used.
\<close>

datatype jsnum = NaN | PInf | NInf | Fin rat

definition pow2 :: "int \<Rightarrow> rat" where
  "pow2 e = (if 0 \<le> e then 2 ^ nat e else 1 / 2 ^ nat (- e))"

definition pow10 :: "int \<Rightarrow> rat" where
  "pow10 e = (if 0 \<le> e then 10 ^ nat e else 1 / 10 ^ nat (- e))"

definition binade :: "rat \<Rightarrow> int" where
  \<comment> \<open>The binary exponent of \<open>a\<close> within the range of binary64: the largest \<open>e\<close>
      from \<open>-1022\<close> to \<open>1025\<close> with \<open>2^e \<le> a\<close>, and \<open>-1022\<close> (the subnormal
      range) when there is none. Found by bisection.\<close>
  "binade a =
     foldl (\<lambda>e s. if pow2 (e + s) \<le> a then e + s else e) (- 1022)
       [1024, 512, 256, 128, 64, 32, 16, 8, 4, 2, 1]"

definition roundTiesEvenFrom :: "rat \<Rightarrow> int \<Rightarrow> int" where
  "roundTiesEvenFrom x f =
     (if x - of_int f < 1 / 2 then f else if 1 / 2 < x - of_int f then f + 1
      else if even f then f else f + 1)"

definition roundTiesEven :: "rat \<Rightarrow> int" where
  "roundTiesEven x = roundTiesEvenFrom x \<lfloor>x\<rfloor>"

definition flResult :: "rat \<Rightarrow> rat \<Rightarrow> jsnum" where
  \<comment> \<open>\<open>q\<close> gives the sign, \<open>v\<close> is the rounded magnitude.\<close>
  "flResult q v =
     (if pow2 1024 \<le> v then (if 0 < q then PInf else NInf)
      else Fin (if 0 < q then v else - v))"

definition flRound :: "rat \<Rightarrow> rat \<Rightarrow> jsnum" where
  \<comment> \<open>\<open>u\<close> is the unit in the last place of the binade of \<open>q\<close>.\<close>
  "flRound q u = flResult q (of_int (roundTiesEven (\<bar>q\<bar> / u)) * u)"

definition fl :: "rat \<Rightarrow> jsnum" where
  "fl q = (if q = 0 then Fin 0 else flRound q (pow2 (binade \<bar>q\<bar> - 52)))"

definition isNaN :: "jsnum \<Rightarrow> bool" where
  "isNaN x = (x = NaN)"

fun js_lt :: "jsnum \<Rightarrow> jsnum \<Rightarrow> bool" where
  "js_lt NaN _ = False"
| "js_lt _ NaN = False"
| "js_lt PInf _ = False"
| "js_lt _ NInf = False"
| "js_lt NInf _ = True"
| "js_lt _ PInf = True"
| "js_lt (Fin a) (Fin b) = (a < b)"

definition js_gt :: "jsnum \<Rightarrow> jsnum \<Rightarrow> bool" where
  "js_gt x y = js_lt y x"

definition js_eq :: "jsnum \<Rightarrow> jsnum \<Rightarrow> bool" where
  \<comment> \<open>\<open>===\<close> on numbers: \<open>NaN\<close> equals nothing.\<close>
  "js_eq x y = (x \<noteq> NaN \<and> x = y)"

definition js_le :: "jsnum \<Rightarrow> jsnum \<Rightarrow> bool" where
  "js_le x y = (js_lt x y \<or> js_eq x y)"

definition js_ge :: "jsnum \<Rightarrow> jsnum \<Rightarrow> bool" where
  "js_ge x y = js_le y x"

fun js_add :: "jsnum \<Rightarrow> jsnum \<Rightarrow> jsnum" where
  "js_add NaN _ = NaN"
| "js_add _ NaN = NaN"
| "js_add PInf NInf = NaN"
| "js_add NInf PInf = NaN"
| "js_add PInf _ = PInf"
| "js_add _ PInf = PInf"
| "js_add NInf _ = NInf"
| "js_add _ NInf = NInf"
| "js_add (Fin a) (Fin b) = fl (a + b)"

fun js_half :: "jsnum \<Rightarrow> jsnum" where
  \<comment> \<open>\<open>x / 2\<close>.\<close>
  "js_half (Fin a) = fl (a / 2)"
| "js_half x = x"

section \<open>Parsing and printing numbers\<close>

definition isDigit :: "char \<Rightarrow> bool" where
  "isDigit c = (48 \<le> charCode c \<and> charCode c \<le> 57)"

definition digitsValue :: "string \<Rightarrow> nat" where
  "digitsValue ds = foldl (\<lambda>n c. 10 * n + (charCode c - 48)) 0 ds"

text \<open>The mathematical value of a numeric literal, before it is rounded.\<close>

datatype mv = MVInf | MV rat

definition exponentDigits :: "string \<Rightarrow> bool \<Rightarrow> string \<Rightarrow> int \<times> string" where
  \<comment> \<open>\<open>s\<close> starts with \<open>e\<close> or \<open>E\<close>, \<open>r\<close> is what follows the optional sign. Without
      a digit there is no ExponentPart, and all of \<open>s\<close> is left.\<close>
  "exponentDigits s neg r =
     (if takeWhile isDigit r = [] then (0, s)
      else (if neg then - int (digitsValue (takeWhile isDigit r))
            else int (digitsValue (takeWhile isDigit r)),
            dropWhile isDigit r))"

definition exponentPart :: "string \<Rightarrow> int \<times> string" where
  \<comment> \<open>An optional ExponentPart: the exponent (0 when there is none) and the rest.\<close>
  "exponentPart s =
     (case s of
        [] \<Rightarrow> (0, s)
      | c # r \<Rightarrow>
          if c = CHR ''e'' \<or> c = CHR ''E'' then
            (if r \<noteq> [] \<and> hd r = CHR ''-'' then exponentDigits s True (tl r)
             else if r \<noteq> [] \<and> hd r = CHR ''+'' then exponentDigits s False (tl r)
             else exponentDigits s False r)
          else (0, s))"

definition decimalValue :: "string \<Rightarrow> string \<Rightarrow> string \<Rightarrow> (mv \<times> string) option" where
  \<comment> \<open>Integer digits \<open>ip\<close>, fraction digits \<open>fp\<close>, and the text \<open>r\<close> after them.\<close>
  "decimalValue ip fp r =
     (if ip = [] \<and> fp = [] then None
      else Some (MV (of_nat (digitsValue (ip @ fp)) *
                     pow10 (fst (exponentPart r) - int (length fp))),
                 snd (exponentPart r)))"

definition fractionPart :: "string \<Rightarrow> string \<Rightarrow> (mv \<times> string) option" where
  "fractionPart ip r =
     (if r \<noteq> [] \<and> hd r = CHR ''.''
      then decimalValue ip (takeWhile isDigit (tl r)) (dropWhile isDigit (tl r))
      else decimalValue ip [] r)"

definition unsignedDecimalPrefix :: "string \<Rightarrow> (mv \<times> string) option" where
  \<comment> \<open>The longest prefix that is a StrUnsignedDecimalLiteral, and the rest.\<close>
  "unsignedDecimalPrefix s =
     (if take 8 s = ''Infinity'' then Some (MVInf, drop 8 s)
      else fractionPart (takeWhile isDigit s) (dropWhile isDigit s))"

definition decimalPrefix :: "string \<Rightarrow> (mv \<times> bool \<times> string) option" where
  \<comment> \<open>The longest prefix that is a StrDecimalLiteral: its value, whether it has a
      minus sign, and the rest.\<close>
  "decimalPrefix s =
     (if s \<noteq> [] \<and> hd s = CHR ''-''
      then map_option (\<lambda>(v, r). (v, True, r)) (unsignedDecimalPrefix (tl s))
      else if s \<noteq> [] \<and> hd s = CHR ''+''
      then map_option (\<lambda>(v, r). (v, False, r)) (unsignedDecimalPrefix (tl s))
      else map_option (\<lambda>(v, r). (v, False, r)) (unsignedDecimalPrefix s))"

definition mvToNumber :: "mv \<Rightarrow> bool \<Rightarrow> jsnum" where
  "mvToNumber v neg =
     (case v of MVInf \<Rightarrow> (if neg then NInf else PInf)
              | MV q \<Rightarrow> fl (if neg then - q else q))"

definition parseFloat :: "string \<Rightarrow> jsnum" where
  "parseFloat s =
     (case decimalPrefix (trimStart s) of
        None \<Rightarrow> NaN
      | Some (v, neg, r) \<Rightarrow> mvToNumber v neg)"

definition radixDigitValue :: "char \<Rightarrow> nat" where
  \<comment> \<open>The value of a digit or of a letter \<open>a\<close> to \<open>f\<close>, else 16.\<close>
  "radixDigitValue c =
     (if isDigit c then charCode c - 48
      else if 97 \<le> charCode c \<and> charCode c \<le> 102 then charCode c - 87
      else if 65 \<le> charCode c \<and> charCode c \<le> 70 then charCode c - 55
      else 16)"

definition radixDigits :: "nat \<Rightarrow> string \<Rightarrow> nat option" where
  "radixDigits b ds =
     (if ds \<noteq> [] \<and> list_all (\<lambda>c. radixDigitValue c < b) ds
      then Some (foldl (\<lambda>n c. b * n + radixDigitValue c) 0 ds) else None)"

definition nonDecimalLiteral :: "string \<Rightarrow> nat option" where
  \<comment> \<open>\<open>0x\<close>, \<open>0o\<close> and \<open>0b\<close> literals (no sign).\<close>
  "nonDecimalLiteral t =
     (case t of
        c0 # c1 # ds \<Rightarrow>
          if c0 \<noteq> CHR ''0'' then None
          else if c1 = CHR ''x'' \<or> c1 = CHR ''X'' then radixDigits 16 ds
          else if c1 = CHR ''o'' \<or> c1 = CHR ''O'' then radixDigits 8 ds
          else if c1 = CHR ''b'' \<or> c1 = CHR ''B'' then radixDigits 2 ds
          else None
      | _ \<Rightarrow> None)"

definition decimalLiteral :: "string \<Rightarrow> jsnum" where
  \<comment> \<open>The whole of \<open>t\<close> must be a StrDecimalLiteral.\<close>
  "decimalLiteral t =
     (case decimalPrefix t of
        Some (v, neg, r) \<Rightarrow> (if r = [] then mvToNumber v neg else NaN)
      | None \<Rightarrow> NaN)"

definition numericLiteral :: "string \<Rightarrow> jsnum" where
  "numericLiteral t =
     (if t = [] then Fin 0
      else case nonDecimalLiteral t of
             Some n \<Rightarrow> fl (of_nat n)
           | None \<Rightarrow> decimalLiteral t)"

definition StringToNumber :: "string \<Rightarrow> jsnum" where
  \<comment> \<open>\<open>Number(s)\<close> for a string: the whole trimmed string must be a numeric literal;
      the empty string is 0.\<close>
  "StringToNumber s = numericLiteral (trim s)"

definition digitChar :: "nat \<Rightarrow> char" where
  "digitChar d = ''0123456789'' ! (d mod 10)"

fun digitsOf :: "nat \<Rightarrow> string" where
  "digitsOf n =
     (if n < 10 then [digitChar n] else digitsOf (n div 10) @ [digitChar (n mod 10)])"

definition ilog10 :: "rat \<Rightarrow> int" where
  \<comment> \<open>The decimal exponent of a positive binary64 value \<open>a\<close>: the \<open>e\<close> with
      \<open>10^e \<le> a < 10^(e+1)\<close>, searched by bisection from \<open>-324\<close> to \<open>699\<close>.\<close>
  "ilog10 a =
     foldl (\<lambda>e s. if pow10 (e + s) \<le> a then e + s else e) (- 324)
       [512, 256, 128, 64, 32, 16, 8, 4, 2, 1]"

text \<open>
  Number::toString, step 5: for \<open>0 < x\<close> the least number \<open>k\<close> of digits and the
  integers \<open>s\<close> (of \<open>k\<close> digits) and \<open>n\<close> such that \<open>s * 10^(n-k)\<close> rounds to \<open>x\<close>; of two
  such \<open>s\<close> the one closer to \<open>x\<close>. With \<open>10^e \<le> x < 10^(e+1)\<close> and \<open>sc = 10^(e-k+1)\<close>
  the only candidates are \<open>lo = \<lfloor>x / sc\<rfloor>\<close> and \<open>lo + 1\<close>.
\<close>

definition upperCandidate :: "nat \<Rightarrow> int \<Rightarrow> nat \<Rightarrow> nat \<times> int" where
  "upperCandidate k e lo =
     (if lo + 1 = 10 ^ k then (10 ^ (k - 1), e + 2) else (lo + 1, e + 1))"

definition pickCandidate :: "rat \<Rightarrow> nat \<Rightarrow> int \<Rightarrow> rat \<Rightarrow> nat \<Rightarrow> (nat \<times> int) option" where
  "pickCandidate x k e sc lo =
     (if fl (of_nat lo * sc) = Fin x then
        (if fl (of_nat (lo + 1) * sc) = Fin x then
           (if x - of_nat lo * sc < of_nat (lo + 1) * sc - x then Some (lo, e + 1)
            else if of_nat (lo + 1) * sc - x < x - of_nat lo * sc
            then Some (upperCandidate k e lo)
            else if even lo then Some (lo, e + 1) else Some (upperCandidate k e lo))
         else Some (lo, e + 1))
      else if fl (of_nat (lo + 1) * sc) = Fin x then Some (upperCandidate k e lo)
      else None)"

definition candidateAt :: "rat \<Rightarrow> nat \<Rightarrow> int \<Rightarrow> (nat \<times> int) option" where
  "candidateAt x k e =
     pickCandidate x k e (pow10 (e - int k + 1)) (nat \<lfloor>x / pow10 (e - int k + 1)\<rfloor>)"

definition candidate :: "rat \<Rightarrow> nat \<Rightarrow> (nat \<times> int) option" where
  "candidate x k = candidateAt x k (ilog10 x)"

function shortestDigits :: "rat \<Rightarrow> nat \<Rightarrow> nat \<times> nat \<times> int" where
  \<comment> \<open>The least \<open>k\<close> with a candidate, searched from \<open>k\<close> upwards. A binary64 value
      has one with at most 17 digits, so the first branch is never reached for one.\<close>
  "shortestDigits x k =
     (if 17 < k then (k, nat \<lfloor>x / pow10 (ilog10 x - int k + 1)\<rfloor>, ilog10 x + 1)
      else case candidate x k of
             Some (s, n) \<Rightarrow> (k, s, n)
           | None \<Rightarrow> shortestDigits x (k + 1))"
  by pat_completeness auto
termination
  by (relation "measure (\<lambda>(x, k). 18 - k)") auto

definition exponentText :: "int \<Rightarrow> string" where
  "exponentText ex = (if 0 \<le> ex then ''+'' else ''-'') @ digitsOf (nat \<bar>ex\<bar>)"

definition formatDigits :: "nat \<Rightarrow> string \<Rightarrow> int \<Rightarrow> string" where
  \<comment> \<open>Number::toString, steps 6 to 10: \<open>ds\<close> are the \<open>k\<close> digits of \<open>s\<close>.\<close>
  "formatDigits k ds n =
     (if int k \<le> n \<and> n \<le> 21 then ds @ replicate (nat (n - int k)) CHR ''0''
      else if 0 < n \<and> n \<le> 21 then take (nat n) ds @ ''.'' @ drop (nat n) ds
      else if - 6 < n \<and> n \<le> 0 then ''0.'' @ replicate (nat (- n)) CHR ''0'' @ ds
      else if k = 1 then ds @ ''e'' @ exponentText (n - 1)
      else hd ds # ''.'' @ tl ds @ ''e'' @ exponentText (n - 1))"

fun formatShortest :: "nat \<times> nat \<times> int \<Rightarrow> string" where
  "formatShortest (k, s, n) = formatDigits k (digitsOf s) n"

definition positiveToString :: "rat \<Rightarrow> string" where
  "positiveToString x = formatShortest (shortestDigits x 1)"

fun Number_toString :: "jsnum \<Rightarrow> string" where
  "Number_toString NaN = ''NaN''"
| "Number_toString PInf = ''Infinity''"
| "Number_toString NInf = ''-Infinity''"
| "Number_toString (Fin x) =
     (if x = 0 then ''0''
      else if x < 0 then ''-'' @ positiveToString (- x)
      else positiveToString x)"

definition padFixed :: "string \<Rightarrow> string" where
  "padFixed m = (if length m \<le> 1 then replicate (2 - length m) CHR ''0'' @ m else m)"

definition insertPoint :: "string \<Rightarrow> string" where
  "insertPoint m = take (length m - 1) m @ ''.'' @ drop (length m - 1) m"

definition toFixedAbs :: "rat \<Rightarrow> string" where
  \<comment> \<open>For \<open>0 \<le> a\<close>: the nearest multiple of one tenth, the larger one on a tie.\<close>
  "toFixedAbs a =
     (if pow10 21 \<le> a then Number_toString (Fin a)
      else insertPoint (padFixed (digitsOf (nat \<lfloor>a * 10 + 1 / 2\<rfloor>))))"

fun toFixed1 :: "jsnum \<Rightarrow> string" where
  \<comment> \<open>\<open>x.toFixed(1)\<close>.\<close>
  "toFixed1 (Fin q) = (if q < 0 then ''-'' @ toFixedAbs (- q) else toFixedAbs q)"
| "toFixed1 x = Number_toString x"

section \<open>Cell values and arrays\<close>

text \<open>
  \<open>CellValue = string | number | boolean | null\<close> (types.ts). Two more values occur
  in the arrays at run time: \<open>Undefined\<close>, which a read beyond the end of a row or of a
  hole yields and which spreading a row writes into the copy, and \<open>Hole\<close>, the empty
  slot that an assignment beyond the end of an array leaves behind.
\<close>

datatype CellValue = Str string | Num jsnum | Bool bool | Null | Undefined | Hole

fun truthy :: "CellValue \<Rightarrow> bool" where
  "truthy (Str s) = (s \<noteq> [])"
| "truthy (Num x) = (x \<noteq> NaN \<and> x \<noteq> Fin 0)"
| "truthy (Bool b) = b"
| "truthy Null = False"
| "truthy Undefined = False"
| "truthy Hole = False"

fun String_of :: "CellValue \<Rightarrow> string" where
  \<comment> \<open>\<open>String(v)\<close>.\<close>
  "String_of (Str s) = s"
| "String_of (Num x) = Number_toString x"
| "String_of (Bool b) = (if b then ''true'' else ''false'')"
| "String_of Null = ''null''"
| "String_of Undefined = ''undefined''"
| "String_of Hole = ''undefined''"

fun Number_of :: "CellValue \<Rightarrow> jsnum" where
  \<comment> \<open>\<open>Number(v)\<close>.\<close>
  "Number_of (Str s) = StringToNumber s"
| "Number_of (Num x) = x"
| "Number_of (Bool b) = Fin (if b then 1 else 0)"
| "Number_of Null = Fin 0"
| "Number_of Undefined = NaN"
| "Number_of Hole = NaN"

definition orElse :: "CellValue \<Rightarrow> string \<Rightarrow> CellValue" where
  \<comment> \<open>\<open>v || d\<close> for a string \<open>d\<close>.\<close>
  "orElse v d = (if truthy v then v else Str d)"

type_synonym Row = "CellValue list"

text \<open>
  A slot of \<open>data\<close> holds a row or nothing (a hole, \<open>undefined\<close> or \<open>null\<close>); every
  test of the code on a row is \<open>!row\<close>, which does not tell these apart.
\<close>

type_synonym SheetData = "Row option list"

definition cellAt :: "Row \<Rightarrow> nat \<Rightarrow> CellValue" where
  \<comment> \<open>\<open>row[i]\<close>: a hole and an index out of range read as \<open>undefined\<close>.\<close>
  "cellAt row i = (if i < length row \<and> row ! i \<noteq> Hole then row ! i else Undefined)"

definition rowAt :: "SheetData \<Rightarrow> nat \<Rightarrow> Row option" where
  \<comment> \<open>\<open>data[i]\<close>, \<open>None\<close> when it is not a row.\<close>
  "rowAt d i = (if i < length d then d ! i else None)"

definition setCell :: "Row \<Rightarrow> nat \<Rightarrow> CellValue \<Rightarrow> Row" where
  \<comment> \<open>\<open>row[c] = v\<close>: beyond the end the array grows, leaving holes.\<close>
  "setCell row c v =
     (if c < length row then row[c := v] else row @ replicate (c - length row) Hole @ [v])"

definition setRow :: "SheetData \<Rightarrow> nat \<Rightarrow> Row \<Rightarrow> SheetData" where
  \<comment> \<open>\<open>data[r] = row\<close>.\<close>
  "setRow d r row =
     (if r < length d then d[r := Some row] else d @ replicate (r - length d) None @ [Some row])"

definition spread :: "Row \<Rightarrow> Row" where
  \<comment> \<open>\<open>[...row]\<close>: the copy has \<open>undefined\<close> where the row has a hole.\<close>
  "spread row = map (\<lambda>v. if v = Hole then Undefined else v) row"

section \<open>The data model (types.ts)\<close>

datatype ConditionType = Gt | Lt | Eq | Gte | Lte | Contains

record ConditionalStyle =
  backgroundColor :: string
  color :: string
  style_name :: string

text \<open>
  \<open>columnIndex\<close> is a \<open>number\<close>; the rules the application creates carry an index
  from \<open>getColIndex\<close> that it has checked to be at least 0, so it is a \<^typ>\<open>nat\<close> here.
  The \<open>value\<close> of a conditional rule is a \<open>string | number\<close>, that is a \<open>Str\<close> or a
  \<open>Num\<close> cell value.
\<close>

record ConditionalRule =
  cf_id :: string
  cf_columnIndex :: nat
  cf_condition :: ConditionType
  cf_value :: CellValue
  cf_style :: ConditionalStyle

datatype ValidationType = TNumber | TText | TDate | TList | TEmail

record ValidationRule =
  vr_id :: string
  vr_columnIndex :: nat
  vr_type :: ValidationType
  vr_min :: "string option"
  vr_max :: "string option"
  vr_options :: "string list option"
  vr_errorMessage :: "string option"

text \<open>
  The \<open>Sheet\<close> of App.tsx: the interface of types.ts and the two fields \<open>editCode\<close>
  and \<open>viewCode\<close> that App.tsx reads and writes. An optional field is an option.
\<close>

record Sheet =
  sheet_id :: string
  sheet_name :: string
  data :: SheetData
  conditionalFormats :: "ConditionalRule list option"
  validationRules :: "ValidationRule list option"
  editCode :: "string option"
  viewCode :: "string option"
  accessCode :: "string option"
  accessCodeExpiration :: "jsnum option"
  isShared :: "bool option"

datatype AccessLevel = Edit | View

definition present :: "string option \<Rightarrow> bool" where
  \<comment> \<open>The truth value of an optional string: set and not empty.\<close>
  "present s = (case s of None \<Rightarrow> False | Some t \<Rightarrow> t \<noteq> [])"

definition hasCodes :: "Sheet \<Rightarrow> bool" where
  \<comment> \<open>\<open>sheet.editCode || sheet.viewCode\<close>.\<close>
  "hasCodes sh = (present (editCode sh) \<or> present (viewCode sh))"

section \<open>The state of App.tsx\<close>

text \<open>
  The React state that the handlers below read and write, and the messages shown by
  \<open>alert\<close>, oldest first. A handler is a function from the state at the event to
  the state after it.
\<close>

record AppState =
  sheets :: "Sheet list"
  activeSheetId :: "string option"
  unlockedSheets :: "string \<rightharpoonup> AccessLevel"
  accessCodeInput :: string
  accessError :: "string option"
  contextMenu :: "string option"
  alerts :: "string list"

text \<open>
  A handler returns, or throws a TypeError on the way; the state updates it has
  requested before it throws are still applied.
\<close>

datatype 'a outcome = Returned 'a | Threw 'a

definition activeSheet :: "AppState \<Rightarrow> Sheet option" where
  \<comment> \<open>\<open>sheets.find(s => s.id === activeSheetId)\<close>.\<close>
  "activeSheet st =
     (case activeSheetId st of
        None \<Rightarrow> None
      | Some i \<Rightarrow> find (\<lambda>s. sheet_id s = i) (sheets st))"

definition currentAccess :: "AppState \<Rightarrow> AccessLevel option" where
  \<comment> \<open>\<open>activeSheetId ? unlockedSheets[activeSheetId] : undefined\<close>.\<close>
  "currentAccess st =
     (case activeSheetId st of
        None \<Rightarrow> None
      | Some i \<Rightarrow> if i = [] then None else unlockedSheets st i)"

definition canEdit :: "AppState \<Rightarrow> bool" where
  "canEdit st =
     (case activeSheet st of
        Some a \<Rightarrow> if \<not> hasCodes a then True else currentAccess st = Some Edit
      | None \<Rightarrow> currentAccess st = Some Edit)"

definition replaceSheet :: "string \<Rightarrow> Sheet \<Rightarrow> Sheet list \<Rightarrow> Sheet list" where
  \<comment> \<open>\<open>prev.map(s => s.id === i ? updated : s)\<close>.\<close>
  "replaceSheet i updated prev = map (\<lambda>s. if sheet_id s = i then updated else s) prev"

definition alert :: "string \<Rightarrow> AppState \<Rightarrow> AppState" where
  "alert msg st = st\<lparr>alerts := alerts st @ [msg]\<rparr>"

section \<open>Access control (App.tsx)\<close>

definition msgExpired :: string where
  \<comment> \<open>\<open>Os c\<close>, U+00F3, \<open>digos expiraram. O administrador deve gerar novos.\<close>\<close>
  "msgExpired = ''Os c'' @ [CHR 0xF3] @ ''digos expiraram. O administrador deve gerar novos.''"

definition msgIncorrect :: string where
  \<comment> \<open>\<open>C\<close>, U+00F3, \<open>digo incorreto.\<close>\<close>
  "msgIncorrect = ''C'' @ [CHR 0xF3] @ ''digo incorreto.''"

definition numberTruthy :: "jsnum \<Rightarrow> bool" where
  "numberTruthy x = (x \<noteq> NaN \<and> x \<noteq> Fin 0)"

definition expired :: "Sheet \<Rightarrow> jsnum \<Rightarrow> bool" where
  \<comment> \<open>\<open>sheet.accessCodeExpiration && Date.now() > sheet.accessCodeExpiration\<close>.\<close>
  "expired sh now =
     (case accessCodeExpiration sh of
        None \<Rightarrow> False
      | Some e \<Rightarrow> numberTruthy e \<and> js_gt now e)"

definition grant :: "string \<Rightarrow> AccessLevel \<Rightarrow> AppState \<Rightarrow> AppState" where
  \<comment> \<open>The three updates of a successful unlock.\<close>
  "grant i level st =
     st\<lparr>unlockedSheets := (unlockedSheets st)(i \<mapsto> level),
        accessCodeInput := [],
        accessError := None\<rparr>"

definition sameAs :: "nat list \<Rightarrow> string option \<Rightarrow> bool" where
  \<comment> \<open>\<open>input === code\<close> for the input as code units and an optional stored
      code: \<open>undefined\<close> equals no string.\<close>
  "sameAs input code = (case code of None \<Rightarrow> False | Some c \<Rightarrow> input = units c)"

definition handleUnlockSheet :: "jsnum \<Rightarrow> AppState \<Rightarrow> AppState" where
  \<comment> \<open>\<open>now\<close> is the value of \<open>Date.now()\<close>.\<close>
  "handleUnlockSheet now st =
     (case activeSheet st of
        None \<Rightarrow> st
      | Some a \<Rightarrow>
          if expired a now then st\<lparr>accessError := Some msgExpired\<rparr>
          else if sameAs (toUpperCase (trim (accessCodeInput st))) (editCode a)
          then grant (sheet_id a) Edit st
          else if sameAs (toUpperCase (trim (accessCodeInput st))) (viewCode a)
          then grant (sheet_id a) View st
          else if sameAs (toUpperCase (trim (accessCodeInput st))) (accessCode a)
          then grant (sheet_id a) Edit st
          else st\<lparr>accessError := Some msgIncorrect\<rparr>)"

text \<open>
  The form of an issued code (digits, upper-case letters, the point), strings of
  ASCII characters, and equality of a string and an optional code up to the case of
  the letters.
\<close>

definition issuedForm :: "string \<Rightarrow> bool" where
  "issuedForm code =
     list_all (\<lambda>c. isDigit c \<or> (65 \<le> charCode c \<and> charCode c \<le> 90) \<or> c = CHR ''.'') code"

definition issuedOrAbsent :: "string option \<Rightarrow> bool" where
  "issuedOrAbsent code = (case code of None \<Rightarrow> True | Some c \<Rightarrow> issuedForm c)"

definition isAscii :: "string \<Rightarrow> bool" where
  "isAscii s = list_all (\<lambda>c. charCode c < 128) s"

definition equalIgnoringCase :: "string \<Rightarrow> string option \<Rightarrow> bool" where
  "equalIgnoringCase t code =
     (case code of None \<Rightarrow> False | Some c \<Rightarrow> toLowerCase t = toLowerCase c)"

datatype ExpirationUnit = Hours | Days | Weeks | Months

fun multiplier :: "ExpirationUnit \<Rightarrow> rat" where
  "multiplier Hours = 1000 * 60 * 60"
| "multiplier Days = 1000 * 60 * 60 * 24"
| "multiplier Weeks = 1000 * 60 * 60 * 24 * 7"
| "multiplier Months = 1000 * 60 * 60 * 24 * 30"

definition base36 :: "string \<Rightarrow> bool" where
  \<comment> \<open>What \<open>Math.random().toString(36).slice(-6)\<close> consists of: digits, the
      letters \<open>a\<close> to \<open>z\<close>, and the point of a short fraction.\<close>
  "base36 raw =
     list_all (\<lambda>c. isDigit c \<or> (97 \<le> charCode c \<and> charCode c \<le> 122) \<or> c = CHR ''.'') raw"

definition issuedCode :: "string \<Rightarrow> string" where
  \<comment> \<open>\<open>raw.toUpperCase()\<close> for such a string \<open>raw\<close>.\<close>
  "issuedCode raw = fromUnits (toUpperCase raw)"

definition handleCreateAccessCode ::
  "jsnum \<Rightarrow> nat \<Rightarrow> ExpirationUnit \<Rightarrow> string \<Rightarrow> string \<Rightarrow> AppState \<Rightarrow> AppState" where
  \<comment> \<open>\<open>now\<close> is \<open>Date.now()\<close>, \<open>expirationValue\<close> the whole number of the form, and
      \<open>rawEdit\<close> and \<open>rawView\<close> the two values of
      \<open>Math.random().toString(36).slice(-6)\<close>.\<close>
  "handleCreateAccessCode now expirationValue expirationUnit rawEdit rawView st =
     (case activeSheet st of
        None \<Rightarrow> st
      | Some a \<Rightarrow>
          st\<lparr>sheets := replaceSheet (sheet_id a)
                  (a\<lparr>editCode := Some (issuedCode rawEdit),
                     viewCode := Some (issuedCode rawView),
                     accessCodeExpiration :=
                       Some (js_add now (fl (of_nat expirationValue * multiplier expirationUnit))),
                     isShared := Some True\<rparr>)
                  (sheets st),
             unlockedSheets := (unlockedSheets st)(sheet_id a \<mapsto> Edit)\<rparr>)"

definition handleRemoveAccessCode :: "AppState \<Rightarrow> AppState" where
  "handleRemoveAccessCode st =
     (case activeSheet st of
        None \<Rightarrow> st
      | Some a \<Rightarrow>
          st\<lparr>sheets := replaceSheet (sheet_id a)
                  (a\<lparr>editCode := None, viewCode := None, accessCode := None,
                     accessCodeExpiration := None, isShared := Some False\<rparr>)
                  (sheets st)\<rparr>)"

definition handleSimulateLock :: "AppState \<Rightarrow> AppState" where
  "handleSimulateLock st =
     (case activeSheet st of
        None \<Rightarrow> st
      | Some a \<Rightarrow> st\<lparr>unlockedSheets := (unlockedSheets st)(sheet_id a := None)\<rparr>)"

section \<open>The sheet store (App.tsx)\<close>

definition msgEditorsDelete :: string where
  "msgEditorsDelete = ''Apenas editores podem excluir planilhas.''"

definition msgEditorsRename :: string where
  "msgEditorsRename = ''Apenas editores podem renomear planilhas.''"

definition msgOnlySheet :: string where
  \<comment> \<open>\<open>N\<close>, U+00E3, \<open>o\<close> U+00E9 \<open>poss\<close>, U+00ED, \<open>vel excluir a\<close> U+00FA\<open>nica planilha
      existente.\<close>\<close>
  "msgOnlySheet = ''N'' @ [CHR 0xE3] @ ''o '' @ [CHR 0xE9] @ '' poss'' @ [CHR 0xED] @
     ''vel excluir a '' @ [CHR 0xFA] @ ''nica planilha existente.''"

definition mayNotEdit :: "AppState \<Rightarrow> Sheet \<Rightarrow> bool" where
  \<comment> \<open>\<open>unlockedSheets[sheet.id] !== 'edit' && (sheet.editCode || sheet.viewCode)\<close>.\<close>
  "mayNotEdit st sh = (unlockedSheets st (sheet_id sh) \<noteq> Some Edit \<and> hasCodes sh)"

definition handleDeleteSheet :: "bool \<Rightarrow> AppState \<Rightarrow> AppState outcome" where
  \<comment> \<open>\<open>confirmed\<close> is the answer to the \<open>confirm\<close> dialogue. \<open>newSheets[0].id\<close>
      throws when \<open>newSheets\<close> is empty, after \<open>setSheets(newSheets)\<close>.\<close>
  "handleDeleteSheet confirmed st =
     (case contextMenu st of
        None \<Rightarrow> Returned st
      | Some target \<Rightarrow>
          if (case find (\<lambda>s. sheet_id s = target) (sheets st) of
                Some sh \<Rightarrow> mayNotEdit st sh
              | None \<Rightarrow> False)
          then Returned ((alert msgEditorsDelete st)\<lparr>contextMenu := None\<rparr>)
          else if length (sheets st) \<le> 1
          then Returned ((alert msgOnlySheet st)\<lparr>contextMenu := None\<rparr>)
          else if \<not> confirmed then Returned (st\<lparr>contextMenu := None\<rparr>)
          else if activeSheetId st \<noteq> Some target
          then Returned (st\<lparr>sheets := filter (\<lambda>s. sheet_id s \<noteq> target) (sheets st),
                            contextMenu := None\<rparr>)
          else (case filter (\<lambda>s. sheet_id s \<noteq> target) (sheets st) of
                  [] \<Rightarrow> Threw (st\<lparr>sheets := []\<rparr>)
                | first # rest \<Rightarrow>
                    Returned (st\<lparr>sheets := first # rest,
                                 activeSheetId := Some (sheet_id first),
                                 contextMenu := None\<rparr>)))"

definition handleRenameSheet :: "string option \<Rightarrow> AppState \<Rightarrow> AppState" where
  \<comment> \<open>\<open>newName\<close> is what \<open>prompt\<close> returns, \<open>None\<close> when it is cancelled.\<close>
  "handleRenameSheet newName st =
     (case contextMenu st of
        None \<Rightarrow> st
      | Some target \<Rightarrow>
          (case find (\<lambda>s. sheet_id s = target) (sheets st) of
             None \<Rightarrow> st
           | Some sh \<Rightarrow>
               if mayNotEdit st sh then alert msgEditorsRename st
               else (case newName of
                       None \<Rightarrow> st\<lparr>contextMenu := None\<rparr>
                     | Some n \<Rightarrow>
                         if n \<noteq> [] \<and> trim n \<noteq> []
                         then st\<lparr>sheets := map (\<lambda>s. if sheet_id s = sheet_id sh
                                                     then s\<lparr>sheet_name := trim n\<rparr> else s)
                                                (sheets st),
                                 contextMenu := None\<rparr>
                         else st\<lparr>contextMenu := None\<rparr>)))"

section \<open>Validation (App.tsx, validateValue)\<close>

text \<open>
  What \<open>new Date(s)\<close> accepts beyond the ISO format is left to the implementation by
  the language standard; \<open>parsesAsDate\<close> is that test, a parameter of the model.
\<close>

record Host =
  parsesAsDate :: "string \<Rightarrow> bool"

datatype check = Valid | Invalid string

fun str_lt :: "string \<Rightarrow> string \<Rightarrow> bool" where
  \<comment> \<open>\<open><\<close> on strings: by code units, a proper prefix first.\<close>
  "str_lt [] [] = False"
| "str_lt [] (y # ys) = True"
| "str_lt (x # xs) [] = False"
| "str_lt (x # xs) (y # ys) = (charCode x < charCode y \<or> (x = y \<and> str_lt xs ys))"

definition msgNotNumber :: string where
  \<comment> \<open>\<open>O valor deve ser um n\<close>, U+00FA, \<open>mero.\<close>\<close>
  "msgNotNumber = ''O valor deve ser um n'' @ [CHR 0xFA] @ ''mero.''"

definition msgMin :: "string \<Rightarrow> string" where
  "msgMin m = ''O valor deve ser maior ou igual a '' @ m @ ''.''"

definition msgMax :: "string \<Rightarrow> string" where
  "msgMax m = ''O valor deve ser menor ou igual a '' @ m @ ''.''"

definition msgBadDate :: string where
  "msgBadDate = ''Data inv'' @ [CHR 0xE1] @ ''lida.''"

definition msgDateMin :: "string \<Rightarrow> string" where
  "msgDateMin m = ''A data deve ser posterior a '' @ m @ ''.''"

definition msgDateMax :: "string \<Rightarrow> string" where
  "msgDateMax m = ''A data deve ser anterior a '' @ m @ ''.''"

definition msgNotInList :: string where
  "msgNotInList = ''Valor n'' @ [CHR 0xE3] @ ''o permitido na lista.''"

definition msgBadEmail :: string where
  "msgBadEmail = ''Endere'' @ [CHR 0xE7] @ ''o de email inv'' @ [CHR 0xE1] @ ''lido.''"

definition msgBadValue :: string where
  "msgBadValue = ''Valor inv'' @ [CHR 0xE1] @ ''lido.''"

definition emailChar :: "char \<Rightarrow> bool" where
  \<comment> \<open>The class \<open>[^\\s@]\<close>.\<close>
  "emailChar c = (\<not> isWhiteSpace c \<and> c \<noteq> CHR ''@'')"

definition emailDomain :: "string \<Rightarrow> bool" where
  \<comment> \<open>\<open>[^\\s@]+\\.[^\\s@]+\<close> matching all of \<open>t\<close>: a dot that is neither first nor
      last.\<close>
  "emailDomain t = (list_all emailChar t \<and> CHR ''.'' \<in> set (butlast (tl t)))"

definition emailRegex :: "string \<Rightarrow> bool" where
  \<comment> \<open>\<open>/^[^\\s@]+@[^\\s@]+\\.[^\\s@]+$/.test(s)\<close>.\<close>
  "emailRegex s =
     (takeWhile emailChar s \<noteq> [] \<and>
      (case dropWhile emailChar s of
         [] \<Rightarrow> False
       | c # t \<Rightarrow> c = CHR ''@'' \<and> emailDomain t))"

fun belowMin :: "jsnum \<Rightarrow> string option \<Rightarrow> string option" where
  \<comment> \<open>\<open>rule.min && num < Number(rule.min)\<close>, with the message it leads to.\<close>
  "belowMin x None = None"
| "belowMin x (Some m) =
     (if m \<noteq> [] \<and> js_lt x (StringToNumber m) then Some (msgMin m) else None)"

fun aboveMax :: "jsnum \<Rightarrow> string option \<Rightarrow> string option" where
  \<comment> \<open>\<open>rule.max && num > Number(rule.max)\<close>, with the message it leads to.\<close>
  "aboveMax x None = None"
| "aboveMax x (Some m) =
     (if m \<noteq> [] \<and> js_gt x (StringToNumber m) then Some (msgMax m) else None)"

definition checkNumber :: "CellValue \<Rightarrow> ValidationRule \<Rightarrow> check" where
  \<comment> \<open>The branch \<open>rule.type === 'number'\<close>.\<close>
  "checkNumber v rule =
     (if isNaN (Number_of v) then Invalid msgNotNumber
      else case belowMin (Number_of v) (vr_min rule) of
             Some msg \<Rightarrow> Invalid msg
           | None \<Rightarrow>
               (case aboveMax (Number_of v) (vr_max rule) of
                  Some msg \<Rightarrow> Invalid msg
                | None \<Rightarrow> Valid))"

fun beforeMin :: "string \<Rightarrow> string option \<Rightarrow> string option" where
  \<comment> \<open>\<open>rule.min && strVal < rule.min\<close>: the strings are compared as they are.\<close>
  "beforeMin t None = None"
| "beforeMin t (Some m) = (if m \<noteq> [] \<and> str_lt t m then Some (msgDateMin m) else None)"

fun afterMax :: "string \<Rightarrow> string option \<Rightarrow> string option" where
  "afterMax t None = None"
| "afterMax t (Some m) = (if m \<noteq> [] \<and> str_lt m t then Some (msgDateMax m) else None)"

definition checkDate :: "Host \<Rightarrow> string \<Rightarrow> ValidationRule \<Rightarrow> check" where
  \<comment> \<open>The branch \<open>rule.type === 'date'\<close>.\<close>
  "checkDate H strVal rule =
     (if \<not> parsesAsDate H strVal then Invalid msgBadDate
      else case beforeMin strVal (vr_min rule) of
             Some msg \<Rightarrow> Invalid msg
           | None \<Rightarrow>
               (case afterMax strVal (vr_max rule) of
                  Some msg \<Rightarrow> Invalid msg
                | None \<Rightarrow> Valid))"

definition validateValue :: "Host \<Rightarrow> CellValue \<Rightarrow> ValidationRule \<Rightarrow> check" where
  "validateValue H v rule =
     (if v = Str [] \<or> v = Null \<or> v = Undefined then Valid
      else case vr_type rule of
             TNumber \<Rightarrow> checkNumber v rule
           | TDate \<Rightarrow> checkDate H (trim (String_of v)) rule
           | TList \<Rightarrow>
               (case vr_options rule of
                  None \<Rightarrow> Valid
                | Some opts \<Rightarrow>
                    if trim (String_of v) \<in> set opts then Valid else Invalid msgNotInList)
           | TEmail \<Rightarrow> (if emailRegex (trim (String_of v)) then Valid else Invalid msgBadEmail)
           | TText \<Rightarrow> Valid)"

section \<open>Conditional formats (components/Spreadsheet.tsx, getCellStyle)\<close>

record CellStyle =
  cs_backgroundColor :: string
  cs_color :: string
  cs_fontWeight :: string

definition normalizedValue :: "CellValue \<Rightarrow> CellValue" where
  \<comment> \<open>\<open>typeof value === 'string' ? value.replace(',', '.') : value\<close>.\<close>
  "normalizedValue v = (case v of Str s \<Rightarrow> Str (replaceFirst CHR '','' CHR ''.'' s) | _ \<Rightarrow> v)"

definition isNumber :: "CellValue \<Rightarrow> bool" where
  \<comment> \<open>\<open>!isNaN(numValue) && value !== "" && value !== null\<close>.\<close>
  "isNumber v = (\<not> isNaN (Number_of (normalizedValue v)) \<and> v \<noteq> Str [] \<and> v \<noteq> Null)"

definition ruleMatches :: "CellValue \<Rightarrow> ConditionalRule \<Rightarrow> bool" where
  \<comment> \<open>The body of the loop: the value of \<open>match\<close> for one rule.\<close>
  "ruleMatches v rule =
     (if isNumber v then
        (case cf_condition rule of
           Gt \<Rightarrow> js_gt (Number_of (normalizedValue v)) (Number_of (cf_value rule))
         | Lt \<Rightarrow> js_lt (Number_of (normalizedValue v)) (Number_of (cf_value rule))
         | Gte \<Rightarrow> js_ge (Number_of (normalizedValue v)) (Number_of (cf_value rule))
         | Lte \<Rightarrow> js_le (Number_of (normalizedValue v)) (Number_of (cf_value rule))
         | Eq \<Rightarrow> js_eq (Number_of (normalizedValue v)) (Number_of (cf_value rule))
         | Contains \<Rightarrow> False)
      else
        (case cf_condition rule of
           Contains \<Rightarrow>
             str_includes (toLowerCase (String_of v)) (toLowerCase (String_of (cf_value rule)))
         | Eq \<Rightarrow> toLowerCase (String_of v) = toLowerCase (String_of (cf_value rule))
         | _ \<Rightarrow> False))"

definition styleOf :: "ConditionalRule \<Rightarrow> CellStyle" where
  "styleOf rule =
     \<lparr>cs_backgroundColor = backgroundColor (cf_style rule),
      cs_color = color (cf_style rule),
      cs_fontWeight = ''500''\<rparr>"

fun firstMatch :: "CellValue \<Rightarrow> ConditionalRule list \<Rightarrow> CellStyle option" where
  \<comment> \<open>\<open>for (const rule of columnRules)\<close>: return at the first match.\<close>
  "firstMatch v [] = None"
| "firstMatch v (rule # rest) =
     (if ruleMatches v rule then Some (styleOf rule) else firstMatch v rest)"

definition getCellStyle ::
  "ConditionalRule list \<Rightarrow> nat \<Rightarrow> nat \<Rightarrow> CellValue \<Rightarrow> CellStyle option" where
  \<comment> \<open>\<open>None\<close> is the empty style object \<open>{}\<close>.\<close>
  "getCellStyle rules rowIndex colIndex v =
     (if rowIndex = 0 then None
      else if filter (\<lambda>r. cf_columnIndex r = colIndex) rules = [] then None
      else firstMatch v (filter (\<lambda>r. cf_columnIndex r = colIndex) rules))"

section \<open>Cell edits and the reactive average (App.tsx, updateCell)\<close>

definition rejection :: "Host \<Rightarrow> nat \<Rightarrow> CellValue \<Rightarrow> Sheet \<Rightarrow> string option" where
  \<comment> \<open>The text of the alert when the rule of column \<open>c\<close> rejects the value:
      \<open>validationRule.errorMessage || check.msg || "Valor inv\<close>U+00E1\<open>lido."\<close>.\<close>
  "rejection H c v a =
     (case validationRules a of
        None \<Rightarrow> None
      | Some rules \<Rightarrow>
          (case find (\<lambda>rule. vr_columnIndex rule = c) rules of
             None \<Rightarrow> None
           | Some rule \<Rightarrow>
               (case validateValue H v rule of
                  Valid \<Rightarrow> None
                | Invalid msg \<Rightarrow>
                    (case vr_errorMessage rule of
                       None \<Rightarrow> Some (if msg \<noteq> [] then msg else msgBadValue)
                     | Some e \<Rightarrow>
                         Some (if e \<noteq> [] then e else if msg \<noteq> [] then msg else msgBadValue)))))"

definition headerText :: "CellValue \<Rightarrow> string" where
  \<comment> \<open>\<open>String(h || "").toLowerCase().trim()\<close>.\<close>
  "headerText h = trim (toLowerCase (String_of (orElse h [])))"

definition headersOf :: "SheetData \<Rightarrow> string option list" where
  \<comment> \<open>\<open>newData[0] ? newData[0].map(...) : []\<close>. \<open>map\<close> does not call its function on
      a hole and leaves a hole in the result, here \<open>None\<close>.\<close>
  "headersOf d =
     (case rowAt d 0 of
        None \<Rightarrow> []
      | Some row \<Rightarrow> map (\<lambda>h. if h = Hole then None else Some (headerText h)) row)"

definition isNota1 :: "string \<Rightarrow> bool" where
  "isNota1 h = (str_includes h ''nota 1'' \<or> h = ''p1'' \<or> h = ''n1'')"

definition isNota2 :: "string \<Rightarrow> bool" where
  "isNota2 h = (str_includes h ''nota 2'' \<or> h = ''p2'' \<or> h = ''n2'')"

definition isMedia :: "string \<Rightarrow> bool" where
  \<comment> \<open>\<open>m\<close>, U+00E9, \<open>dia\<close>, or \<open>media\<close>.\<close>
  "isMedia h = (h = ''m'' @ [CHR 0xE9] @ ''dia'' \<or> h = ''media'')"

text \<open>
  \<open>findIndex\<close> visits every index, a hole as \<open>undefined\<close>. The two tests for the
  grade columns call \<open>h.includes\<close>, which throws a TypeError on \<open>undefined\<close>; the
  test for the average column only compares.
\<close>

datatype found = Throws | NotFound | At nat

fun findNota :: "(string \<Rightarrow> bool) \<Rightarrow> string option list \<Rightarrow> nat \<Rightarrow> found" where
  "findNota p [] i = NotFound"
| "findNota p (None # hs) i = Throws"
| "findNota p (Some h # hs) i = (if p h then At i else findNota p hs (Suc i))"

fun findMedia :: "string option list \<Rightarrow> nat \<Rightarrow> found" where
  "findMedia [] i = NotFound"
| "findMedia (None # hs) i = findMedia hs (Suc i)"
| "findMedia (Some h # hs) i = (if isMedia h then At i else findMedia hs (Suc i))"

definition operandText :: "CellValue \<Rightarrow> string" where
  \<comment> \<open>\<open>String(cell || "").replace(',', '.')\<close>.\<close>
  "operandText v = replaceFirst CHR '','' CHR ''.'' (String_of (orElse v []))"

definition hasComma :: "CellValue \<Rightarrow> bool" where
  \<comment> \<open>\<open>String(cell).includes(',')\<close>.\<close>
  "hasComma v = str_includes (String_of v) '',''"

definition average :: "CellValue \<Rightarrow> CellValue \<Rightarrow> jsnum" where
  \<comment> \<open>\<open>(val1 + val2) / 2\<close>.\<close>
  "average a b = js_half (js_add (parseFloat (operandText a)) (parseFloat (operandText b)))"

definition averageText :: "CellValue \<Rightarrow> CellValue \<Rightarrow> string option" where
  \<comment> \<open>What is written into the average cell for the two operand cells, if
      anything.\<close>
  "averageText a b =
     (if \<not> isNaN (parseFloat (operandText a)) \<and> \<not> isNaN (parseFloat (operandText b)) \<and>
         a \<noteq> Str [] \<and> b \<noteq> Str []
      then Some (if hasComma a \<or> hasComma b
                 then replaceFirst CHR ''.'' CHR '','' (toFixed1 (average a b))
                 else toFixed1 (average a b))
      else None)"

definition padTo :: "Row \<Rightarrow> nat \<Rightarrow> Row" where
  \<comment> \<open>\<open>while (newRow.length <= mediaIdx) newRow.push("")\<close>.\<close>
  "padTo row m = row @ replicate (Suc m - length row) (Str [])"

definition withAverage :: "Row \<Rightarrow> nat \<Rightarrow> nat \<Rightarrow> nat \<Rightarrow> Row" where
  "withAverage row c1 c2 m =
     (case averageText (cellAt row c1) (cellAt row c2) of
        None \<Rightarrow> row
      | Some t \<Rightarrow> setCell (padTo row m) m (Str t))"

definition averageRow :: "string option list \<Rightarrow> nat \<Rightarrow> Row \<Rightarrow> Row option" where
  \<comment> \<open>The row after the reactive average, \<open>None\<close> when a \<open>findIndex\<close> throws. The
      three searches run in this order, all of them before the test.\<close>
  "averageRow hs c row =
     (case findNota isNota1 hs 0 of
        Throws \<Rightarrow> None
      | NotFound \<Rightarrow> (case findNota isNota2 hs 0 of Throws \<Rightarrow> None | _ \<Rightarrow> Some row)
      | At c1 \<Rightarrow>
          (case findNota isNota2 hs 0 of
             Throws \<Rightarrow> None
           | NotFound \<Rightarrow> Some row
           | At c2 \<Rightarrow>
               (case findMedia hs 0 of
                  At m \<Rightarrow> Some (if c = c1 \<or> c = c2 then withAverage row c1 c2 m else row)
                | _ \<Rightarrow> Some row)))"

definition editedRow :: "SheetData \<Rightarrow> nat \<Rightarrow> nat \<Rightarrow> CellValue \<Rightarrow> Row" where
  \<comment> \<open>\<open>if (!newData[r]) newData[r] = []; newRow = [...newData[r]]; newRow[c] = value\<close>.\<close>
  "editedRow d r c v = setCell (spread (case rowAt d r of None \<Rightarrow> [] | Some row \<Rightarrow> row)) c v"

definition commitCell :: "Sheet \<Rightarrow> nat \<Rightarrow> nat \<Rightarrow> CellValue \<Rightarrow> Sheet option" where
  \<comment> \<open>\<open>updatedSheet\<close>, \<open>None\<close> when a \<open>findIndex\<close> throws. \<open>newData[r]\<close> and
      \<open>newRow\<close> are one array, so the average written into \<open>newRow\<close> is in \<open>newData\<close>.\<close>
  "commitCell a r c v =
     (case averageRow (headersOf (setRow (data a) r (editedRow (data a) r c v))) c
             (editedRow (data a) r c v) of
        None \<Rightarrow> None
      | Some row \<Rightarrow> Some (a\<lparr>data := setRow (data a) r row\<rparr>))"

definition updateCell :: "Host \<Rightarrow> nat \<Rightarrow> nat \<Rightarrow> CellValue \<Rightarrow> AppState \<Rightarrow> AppState outcome" where
  "updateCell H r c v st =
     (case activeSheet st of
        None \<Rightarrow> Returned st
      | Some a \<Rightarrow>
          if \<not> canEdit st then Returned st
          else case rejection H c v a of
                 Some msg \<Rightarrow> Returned (alert msg st)
               | None \<Rightarrow>
                   (case commitCell a r c v of
                      None \<Rightarrow> Threw st
                    | Some updated \<Rightarrow>
                        Returned (st\<lparr>sheets := replaceSheet (sheet_id a) updated (sheets st)\<rparr>)))"

section \<open>Duplicating a sheet (App.tsx, handleDuplicateSheet)\<close>

fun jsonCell :: "CellValue \<Rightarrow> CellValue" where
  \<comment> \<open>\<open>JSON.parse(JSON.stringify(v))\<close> for an element of an array: a hole,
      \<open>undefined\<close>, \<open>NaN\<close> and the infinities become \<open>null\<close>.\<close>
  "jsonCell (Str s) = Str s"
| "jsonCell (Num (Fin q)) = Num (Fin q)"
| "jsonCell (Num x) = Null"
| "jsonCell (Bool b) = Bool b"
| "jsonCell Null = Null"
| "jsonCell Undefined = Null"
| "jsonCell Hole = Null"

definition jsonData :: "SheetData \<Rightarrow> SheetData" where
  "jsonData d = map (map_option (map jsonCell)) d"

definition copyName :: "string \<Rightarrow> string" where
  \<comment> \<open>The name and \<open>(C\<close>, U+00F3, \<open>pia)\<close>.\<close>
  "copyName n = n @ '' (C'' @ [CHR 0xF3] @ ''pia)''"

definition duplicateOf :: "string \<Rightarrow> Sheet \<Rightarrow> Sheet" where
  \<comment> \<open>\<open>newSheet\<close>; \<open>newId\<close> is the value of \<open>generateUUID()\<close>.\<close>
  "duplicateOf newId sh =
     sh\<lparr>sheet_id := newId,
        sheet_name := copyName (sheet_name sh),
        data := jsonData (data sh),
        conditionalFormats :=
          Some (case conditionalFormats sh of None \<Rightarrow> [] | Some rs \<Rightarrow> rs),
        validationRules :=
          Some (case validationRules sh of None \<Rightarrow> [] | Some rs \<Rightarrow> rs)\<rparr>"

definition handleDuplicateSheet :: "string \<Rightarrow> AppState \<Rightarrow> AppState" where
  "handleDuplicateSheet newId st =
     (case contextMenu st of
        None \<Rightarrow> st
      | Some target \<Rightarrow>
          (case find (\<lambda>s. sheet_id s = target) (sheets st) of
             None \<Rightarrow> st
           | Some sh \<Rightarrow>
               st\<lparr>unlockedSheets :=
                     (case unlockedSheets st (sheet_id sh) of
                        None \<Rightarrow> unlockedSheets st
                      | Some level \<Rightarrow> (unlockedSheets st)(newId \<mapsto> level)),
                  sheets := sheets st @ [duplicateOf newId sh],
                  activeSheetId := Some newId,
                  contextMenu := None\<rparr>))"

section \<open>Splitting a sheet by a column (utils/excelUtils.ts, splitSheetByColumn)\<close>

definition sentinel :: string where
  "sentinel = ''Sem Turma''"

definition groupKey :: "nat \<Rightarrow> Row \<Rightarrow> string" where
  \<comment> \<open>\<open>String(row[columnIndex] || "Sem Turma")\<close>.\<close>
  "groupKey c row = String_of (orElse (cellAt row c) sentinel)"

definition prototypeNames :: "string list" where
  \<comment> \<open>The properties that the object \<open>groups = {}\<close> inherits from
      \<open>Object.prototype\<close>. \<open>groups[key]\<close> is one of them for such a key, so
      \<open>!groups[key]\<close> is false and \<open>groups[key].push\<close> is not a function.\<close>
  "prototypeNames =
     [''constructor'', ''__defineGetter__'', ''__defineSetter__'', ''hasOwnProperty'',
      ''__lookupGetter__'', ''__lookupSetter__'', ''isPrototypeOf'', ''propertyIsEnumerable'',
      ''toString'', ''valueOf'', ''__proto__'', ''toLocaleString'']"

type_synonym groups = "(string \<times> Row list) list"

fun addToGroup :: "string \<Rightarrow> Row \<Rightarrow> groups \<Rightarrow> groups" where
  \<comment> \<open>\<open>if (!groups[key]) groups[key] = []; groups[key].push(row)\<close>; the own
      properties of \<open>groups\<close> in the order of their creation.\<close>
  "addToGroup k row [] = [(k, [row])]"
| "addToGroup k row ((k', rs) # g) =
     (if k = k' then (k', rs @ [row]) # g else (k', rs) # addToGroup k row g)"

fun groupRows :: "nat \<Rightarrow> SheetData \<Rightarrow> groups \<Rightarrow> groups option" where
  \<comment> \<open>\<open>rows.forEach(...)\<close>; \<open>None\<close> when it throws the TypeError.\<close>
  "groupRows c [] g = Some g"
| "groupRows c (None # rest) g = groupRows c rest g"
| "groupRows c (Some row # rest) g =
     (if row = [] then groupRows c rest g
      else if groupKey c row \<in> set prototypeNames then None
      else groupRows c rest (addToGroup (groupKey c row) row g))"

definition isArrayIndex :: "string \<Rightarrow> bool" where
  \<comment> \<open>A canonical decimal numeral below \<open>2^32 - 1\<close>.\<close>
  "isArrayIndex k =
     (k \<noteq> [] \<and> list_all isDigit k \<and> (k = ''0'' \<or> hd k \<noteq> CHR ''0'') \<and>
      digitsValue k < 2 ^ 32 - 1)"

definition objectKeys :: "groups \<Rightarrow> string list" where
  \<comment> \<open>\<open>Object.keys(groups)\<close>: the array indices in ascending order, then the other
      keys in the order of their creation.\<close>
  "objectKeys g =
     sort_key digitsValue (filter isArrayIndex (map fst g)) @
     filter (\<lambda>k. \<not> isArrayIndex k) (map fst g)"

definition groupOf :: "groups \<Rightarrow> string \<Rightarrow> Row list" where
  \<comment> \<open>\<open>groups[key]\<close> for an own key.\<close>
  "groupOf g k = (case map_of g k of None \<Rightarrow> [] | Some rs \<Rightarrow> rs)"

definition newSheet :: "string \<Rightarrow> string \<Rightarrow> SheetData \<Rightarrow> Sheet" where
  \<comment> \<open>An object with the three fields \<open>id\<close>, \<open>name\<close> and \<open>data\<close>.\<close>
  "newSheet i n d =
     \<lparr>sheet_id = i, sheet_name = n, data = d, conditionalFormats = None,
      validationRules = None, editCode = None, viewCode = None, accessCode = None,
      accessCodeExpiration = None, isShared = None\<rparr>"

definition sheetFor :: "Sheet \<Rightarrow> groups \<Rightarrow> string \<Rightarrow> string \<Rightarrow> Sheet" where
  "sheetFor sheet g i k =
     newSheet i (sheet_name sheet @ '' - '' @ k) (rowAt (data sheet) 0 # map Some (groupOf g k))"

definition splitSheetByColumn :: "(nat \<Rightarrow> string) \<Rightarrow> Sheet \<Rightarrow> nat \<Rightarrow> Sheet list option" where
  \<comment> \<open>\<open>gen i\<close> is the value of the call of \<open>generateUUID()\<close> for the sheet at
      position \<open>i\<close>. \<open>None\<close> when the function throws.\<close>
  "splitSheetByColumn gen sheet columnIndex =
     (if length (data sheet) < 2 then Some []
      else case groupRows columnIndex (tl (data sheet)) [] of
             None \<Rightarrow> None
           | Some g \<Rightarrow>
               Some (map (\<lambda>(i, k). sheetFor sheet g (gen i) k)
                         (enumerate 0 (objectKeys g))))"

section \<open>The other operations on the store (App.tsx)\<close>

definition initialSheet :: Sheet where
  "initialSheet =
     \<lparr>sheet_id = ''init'', sheet_name = ''Pauta 1'',
      data = replicate 20 (Some (replicate 10 (Str []))),
      conditionalFormats = Some [], validationRules = Some [],
      editCode = None, viewCode = None, accessCode = None,
      accessCodeExpiration = None, isShared = None\<rparr>"

definition initEffect :: "string option \<Rightarrow> AppState \<Rightarrow> AppState" where
  \<comment> \<open>The effect on \<open>sheets.length\<close>: it creates the first sheet of an empty store,
      and chooses the active sheet of a loaded one. \<open>shared\<close> is the \<open>pauta\<close> parameter
      of the address.\<close>
  "initEffect shared st =
     (case sheets st of
        [] \<Rightarrow>
          st\<lparr>sheets := [initialSheet], activeSheetId := Some ''init'',
             unlockedSheets := (unlockedSheets st)(''init'' \<mapsto> Edit)\<rparr>
      | first # rest \<Rightarrow>
          if present (activeSheetId st) then st
          else if present shared \<and>
                  find (\<lambda>s. Some (sheet_id s) = shared) (sheets st) \<noteq> None
          then st\<lparr>activeSheetId := shared\<rparr>
          else if hasCodes first then st\<lparr>activeSheetId := Some (sheet_id first)\<rparr>
          else st\<lparr>activeSheetId := Some (sheet_id first),
                  unlockedSheets := (unlockedSheets st)(sheet_id first \<mapsto> Edit)\<rparr>)"

definition handleDragOver :: "nat \<Rightarrow> nat \<Rightarrow> AppState \<Rightarrow> AppState" where
  \<comment> \<open>\<open>from\<close> is \<open>dragItem.current\<close>, \<open>index\<close> the tab under the pointer: two
      \<open>splice\<close> calls on a copy of \<open>sheets\<close>.\<close>
  "handleDragOver from index st =
     (if from = index \<or> length (sheets st) \<le> from then st
      else st\<lparr>sheets :=
                take index (take from (sheets st) @ drop (Suc from) (sheets st)) @
                [sheets st ! from] @
                drop index (take from (sheets st) @ drop (Suc from) (sheets st))\<rparr>)"

definition addSheet :: "string \<Rightarrow> AppState \<Rightarrow> AppState" where
  \<comment> \<open>The button of the tab bar; \<open>newId\<close> is the value of \<open>generateUUID()\<close>.\<close>
  "addSheet newId st =
     (if currentAccess st = Some View then st
      else st\<lparr>sheets := sheets st @
                  [\<lparr>sheet_id = newId,
                    sheet_name = ''Nova Planilha '' @ digitsOf (length (sheets st) + 1),
                    data = [Some []], conditionalFormats = Some [], validationRules = None,
                    editCode = None, viewCode = None, accessCode = None,
                    accessCodeExpiration = None, isShared = None\<rparr>],
              activeSheetId := Some newId,
              unlockedSheets := (unlockedSheets st)(newId \<mapsto> Edit)\<rparr>)"

definition unlockAll :: "Sheet list \<Rightarrow> (string \<rightharpoonup> AccessLevel) \<Rightarrow> (string \<rightharpoonup> AccessLevel)" where
  \<comment> \<open>\<open>newSheets.forEach(s => { next[s.id] = 'edit' })\<close>.\<close>
  "unlockAll new u = (\<lambda>i. if i \<in> sheet_id ` set new then Some Edit else u i)"

definition msgUploadError :: string where
  "msgUploadError = ''Erro ao ler arquivo Excel. Verifique se o formato '' @ [CHR 0xE9] @
     '' v'' @ [CHR 0xE1] @ ''lido.''"

definition handleFileUpload :: "Sheet list option \<Rightarrow> AppState \<Rightarrow> AppState" where
  \<comment> \<open>\<open>parsed\<close> is what \<open>parseExcelFile\<close> resolves to, \<open>None\<close> when it rejects.
      \<open>parsedSheets[0].id\<close> throws for an empty list, after the two updates; the
      \<open>catch\<close> shows the alert.\<close>
  "handleFileUpload parsed st =
     (case parsed of
        None \<Rightarrow> alert msgUploadError st
      | Some [] \<Rightarrow> alert msgUploadError st
      | Some (p # ps) \<Rightarrow>
          st\<lparr>unlockedSheets := unlockAll (p # ps) (unlockedSheets st),
             sheets := sheets st @ p # ps,
             activeSheetId := Some (sheet_id p)\<rparr>)"

definition msgSplitError :: string where
  "msgSplitError = ''Erro ao separar turmas.''"

definition msgNoColumn :: string where
  "msgNoColumn = ''Coluna n'' @ [CHR 0xE3] @ ''o encontrada.''"

definition msgSplitDone :: "nat \<Rightarrow> string" where
  "msgSplitDone n = digitsOf n @ '' novas turmas separadas com sucesso!''"

fun findHeader :: "string \<Rightarrow> Row \<Rightarrow> nat \<Rightarrow> nat option" where
  \<comment> \<open>\<open>headers.findIndex(h => String(h || "").trim().toLowerCase() === wanted)\<close>.\<close>
  "findHeader wanted [] i = None"
| "findHeader wanted (h # hs) i =
     (if toLowerCase (trim (String_of (orElse (if h = Hole then Undefined else h) []))) = wanted
      then Some i else findHeader wanted hs (Suc i))"

definition applySplit :: "Sheet list option \<Rightarrow> AppState \<Rightarrow> AppState" where
  \<comment> \<open>What follows the call of \<open>splitSheetByColumn\<close>; \<open>None\<close> when it threw, which
      the \<open>catch\<close> answers with the alert.\<close>
  "applySplit result st =
     (case result of
        None \<Rightarrow> alert msgSplitError st
      | Some new \<Rightarrow>
          (alert (msgSplitDone (length new)) st)
            \<lparr>unlockedSheets := unlockAll new (unlockedSheets st),
             sheets := sheets st @ new,
             activeSheetId :=
               (case new of [] \<Rightarrow> activeSheetId st | n # ns \<Rightarrow> Some (sheet_id n))\<rparr>)"

definition splitByHeader ::
  "(nat \<Rightarrow> string) \<Rightarrow> Sheet \<Rightarrow> Row \<Rightarrow> string \<Rightarrow> AppState \<Rightarrow> AppState" where
  \<comment> \<open>From the answer \<open>inp\<close> of the prompt on: the column is looked up by its
      header.\<close>
  "splitByHeader gen a headers inp st =
     (case findHeader (toLowerCase (trim inp)) headers 0 of
        None \<Rightarrow> alert msgNoColumn st
      | Some columnIndex \<Rightarrow> applySplit (splitSheetByColumn gen a columnIndex) st)"

definition handleSplitClasses :: "(nat \<Rightarrow> string) \<Rightarrow> string option \<Rightarrow> AppState \<Rightarrow> AppState" where
  \<comment> \<open>\<open>userInput\<close> is the answer to the prompt for the column, \<open>gen\<close> the values of
      \<open>generateUUID()\<close>. The suggestion of the assistant only pre-fills the prompt.\<close>
  "handleSplitClasses gen userInput st =
     (case activeSheet st of
        None \<Rightarrow> st
      | Some a \<Rightarrow>
          if data a = [] then st
          else case rowAt (data a) 0 of
                 None \<Rightarrow> alert msgSplitError st
               | Some headers \<Rightarrow>
                   if headers = [] then alert msgSplitError st
                   else case userInput of
                          None \<Rightarrow> st
                        | Some inp \<Rightarrow> if inp = [] then st else splitByHeader gen a headers inp st)"

fun after :: "'a outcome \<Rightarrow> 'a" where
  \<comment> \<open>The state a handler leaves, whether it returned or threw.\<close>
  "after (Returned s) = s"
| "after (Threw s) = s"

text \<open>
  One event of the application. Every place of App.tsx that calls \<open>setSheets\<close> is
  covered. The four handlers \<open>handleAddRule\<close>, \<open>handleAddValidation\<close>,
  \<open>handleCalculateAverages\<close> and \<open>handleSetupClassValidation\<close> all end in
  \<open>setSheets(prev => prev.map(s => s.id === activeSheet.id ? updatedSheet : s))\<close> with
  \<open>updatedSheet = {...activeSheet, ...}\<close>, which keeps the \<open>id\<close>: the rule \<open>replaced\<close>
  allows any sheet with that \<open>id\<close> in its place and any change to the rest of the state.
  An identifier drawn by \<open>generateUUID()\<close> is one that no sheet of the store has, and
  the sheets of an imported file have distinct identifiers.
\<close>

inductive step :: "AppState \<Rightarrow> AppState \<Rightarrow> bool" where
  init: "step st (initEffect shared st)"
| select: "step st (st\<lparr>activeSheetId := Some i\<rparr>)"
| menu: "step st (st\<lparr>contextMenu := m\<rparr>)"
| typed: "step st (st\<lparr>accessCodeInput := inp\<rparr>)"
| unlock: "step st (handleUnlockSheet now st)"
| lock: "step st (handleSimulateLock st)"
| issue:
    "base36 rawEdit \<Longrightarrow> base36 rawView \<Longrightarrow>
     step st (handleCreateAccessCode now n unit rawEdit rawView st)"
| revoke: "step st (handleRemoveAccessCode st)"
| edit: "step st (after (updateCell H r c v st))"
| rename: "step st (handleRenameSheet newName st)"
| delete: "step st (after (handleDeleteSheet confirmed st))"
| drag: "step st (handleDragOver from index st)"
| duplicate: "newId \<notin> sheet_id ` set (sheets st) \<Longrightarrow> step st (handleDuplicateSheet newId st)"
| add: "newId \<notin> sheet_id ` set (sheets st) \<Longrightarrow> step st (addSheet newId st)"
| upload:
    "distinct (map sheet_id new) \<Longrightarrow> sheet_id ` set new \<inter> sheet_id ` set (sheets st) = {} \<Longrightarrow>
     step st (handleFileUpload (Some new) st)"
| uploadFailed: "step st (handleFileUpload None st)"
| split:
    "inj gen \<Longrightarrow> range gen \<inter> sheet_id ` set (sheets st) = {} \<Longrightarrow>
     step st (handleSplitClasses gen userInput st)"
| replaced:
    "sheet_id updated = i \<Longrightarrow> sheets st' = replaceSheet i updated (sheets st) \<Longrightarrow> step st st'"

definition reachable :: "AppState \<Rightarrow> AppState \<Rightarrow> bool" where
  "reachable st st' = (step\<^sup>*\<^sup>* st st')"

definition storeOk :: "AppState \<Rightarrow> bool" where
  \<comment> \<open>The store holds a sheet, and no two of its sheets have the same \<open>id\<close>.\<close>
  "storeOk st = (sheets st \<noteq> [] \<and> distinct (map sheet_id (sheets st)))"

section \<open>Example data\<close>

text \<open>Concrete rules, sheets and states on which the theorems below are run.\<close>

definition redStyle :: ConditionalStyle where
  "redStyle = \<lparr>backgroundColor = ''#FECACA'', color = ''#991B1B'', style_name = ''Vermelho (Reprovado)''\<rparr>"

definition greenStyle :: ConditionalStyle where
  "greenStyle = \<lparr>backgroundColor = ''#BBF7D0'', color = ''#166534'', style_name = ''Verde (Aprovado)''\<rparr>"

definition ruleGt5 :: ConditionalRule where
  "ruleGt5 = \<lparr>cf_id = ''a'', cf_columnIndex = 0, cf_condition = Gt, cf_value = Str ''5'', cf_style = redStyle\<rparr>"

definition ruleGt3 :: ConditionalRule where
  "ruleGt3 = \<lparr>cf_id = ''b'', cf_columnIndex = 0, cf_condition = Gt, cf_value = Str ''3'', cf_style = greenStyle\<rparr>"

definition sharedSheet :: Sheet where
  \<comment> \<open>A sheet with issued codes that expire at the instant 1000.\<close>
  "sharedSheet =
     \<lparr>sheet_id = ''s1'', sheet_name = ''Pauta 1'', data = [Some [Str ''Nome'']],
      conditionalFormats = Some [], validationRules = Some [],
      editCode = Some ''ABC123'', viewCode = Some ''XYZ789'', accessCode = None,
      accessCodeExpiration = Some (Fin 1000), isShared = Some True\<rparr>"

definition lockedState :: "Sheet \<Rightarrow> string \<Rightarrow> AppState" where
  \<comment> \<open>The sheet is active and locked, and \<open>input\<close> is in the code field.\<close>
  "lockedState sh input =
     \<lparr>sheets = [sh], activeSheetId = Some (sheet_id sh), unlockedSheets = Map.empty,
      accessCodeInput = input, accessError = None, contextMenu = None, alerts = []\<rparr>"


definition emptyState :: AppState where
  \<comment> \<open>The application before its first effect has run, with nothing saved.\<close>
  "emptyState =
     \<lparr>sheets = [], activeSheetId = None, unlockedSheets = Map.empty,
      accessCodeInput = [], accessError = None, contextMenu = None, alerts = []\<rparr>"

definition firstState :: AppState where
  \<comment> \<open>After the first effect: the store holds the sheet \<open>init\<close> alone.\<close>
  "firstState = initEffect None emptyState"

definition deleteRequested :: AppState where
  \<comment> \<open>The context menu is open on the only sheet.\<close>
  "deleteRequested = firstState\<lparr>contextMenu := Some ''init''\<rparr>"
section \<open>Evaluating the model\<close>

text \<open>
  The definitions of the string and number functions, as one collection for the
  simplifier to compute with, and the facts it needs for that.
\<close>

lemma floor_rat_numeral: "\<lfloor>(numeral a :: rat) / numeral b\<rfloor> = numeral a div numeral b"
  using floor_divide_of_int_eq [of "numeral a" "numeral b", where ?'a = rat] by simp

lemma replicate_num: "replicate (numeral k) x = x # replicate (pred_numeral k) x"
  by (simp add: numeral_eq_Suc)

lemmas js_eval = charCode_def isWhiteSpace_def trimStart_def trim_def lowerChar_def
  toLowerCase_def units_def upperUnits_def toUpperCase_def pow2_def pow10_def binade_def
  roundTiesEven_def roundTiesEvenFrom_def flResult_def flRound_def fl_def isNaN_def
  js_gt_def js_eq_def js_le_def js_ge_def isDigit_def digitsValue_def exponentPart_def
  exponentDigits_def decimalValue_def fractionPart_def unsignedDecimalPrefix_def
  decimalPrefix_def mvToNumber_def parseFloat_def radixDigitValue_def radixDigits_def
  nonDecimalLiteral_def decimalLiteral_def numericLiteral_def StringToNumber_def
  ilog10_def upperCandidate_def pickCandidate_def candidateAt_def candidate_def
  exponentText_def formatDigits_def positiveToString_def padFixed_def insertPoint_def
  toFixedAbs_def digitChar_def floor_rat_numeral replicate_num char_of_def bit_Suc_0_iff

section \<open>A string with a comma is not a numeric literal\<close>

lemma mem_dropWhile: "x \<in> set xs \<Longrightarrow> \<not> P x \<Longrightarrow> x \<in> set (dropWhile P xs)"
  by (induction xs) auto

lemma comma_in_trim: "CHR '','' \<in> set s \<Longrightarrow> CHR '','' \<in> set (trim s)"
proof -
  assume a: "CHR '','' \<in> set s"
  have nw: "\<not> isWhiteSpace CHR '',''" by (simp add: isWhiteSpace_def charCode_def)
  have "CHR '','' \<in> set (dropWhile isWhiteSpace s)" using a nw by (rule mem_dropWhile)
  then have "CHR '','' \<in> set (rev (dropWhile isWhiteSpace s))" by simp
  then have "CHR '','' \<in> set (dropWhile isWhiteSpace (rev (dropWhile isWhiteSpace s)))"
    using nw by (rule mem_dropWhile)
  then show ?thesis by (simp add: trim_def)
qed

lemma comma_not_digit: "\<not> isDigit CHR '',''"
  by (simp add: isDigit_def charCode_def)

lemma digits_no_comma: "CHR '','' \<notin> set (takeWhile isDigit s)"
  using comma_not_digit by (auto dest: set_takeWhileD)

lemma all_digits_no_comma: "dropWhile isDigit s = [] \<Longrightarrow> CHR '','' \<notin> set s"
  using comma_not_digit by (auto simp: dropWhile_eq_Nil_conv)

lemma exponentDigits_all:
  "snd (exponentDigits s neg r) = [] \<Longrightarrow> s \<noteq> [] \<Longrightarrow> CHR '','' \<notin> set r"
  using comma_not_digit by (auto simp: exponentDigits_def split: if_splits)

lemma exponentPart_all: "snd (exponentPart s) = [] \<Longrightarrow> CHR '','' \<notin> set s"
proof (cases s)
  case Nil
  then show ?thesis by simp
next
  case (Cons c r)
  assume a: "snd (exponentPart s) = []"
  have e: "c = CHR ''e'' \<or> c = CHR ''E''"
    using a Cons by (auto simp: exponentPart_def split: if_splits)
  have s: "s \<noteq> []" using Cons by simp
  show ?thesis
  proof (cases "r \<noteq> [] \<and> (hd r = CHR ''-'' \<or> hd r = CHR ''+'')")
    case True
    then obtain d t where r: "r = d # t" and d: "d = CHR ''-'' \<or> d = CHR ''+''"
      by (cases r) auto
    have "\<exists>neg. snd (exponentDigits s neg t) = []"
      using a Cons e r d by (auto simp: exponentPart_def split: if_splits)
    then have "CHR '','' \<notin> set t" using s by (auto dest: exponentDigits_all)
    then show ?thesis using Cons e r d by auto
  next
    case False
    then have "snd (exponentDigits s False r) = []"
      using a Cons e by (auto simp: exponentPart_def split: if_splits)
    then have "CHR '','' \<notin> set r" using s by (rule exponentDigits_all)
    then show ?thesis using Cons e by auto
  qed
qed

lemma decimalValue_all:
  "decimalValue ip fp r = Some (v, []) \<Longrightarrow> CHR '','' \<notin> set r"
  by (auto simp: decimalValue_def split: if_splits dest: exponentPart_all)

lemma fractionPart_all:
  "fractionPart ip r = Some (v, []) \<Longrightarrow> CHR '','' \<notin> set r"
proof -
  assume a: "fractionPart ip r = Some (v, [])"
  show ?thesis
  proof (cases "r \<noteq> [] \<and> hd r = CHR ''.''")
    case True
    then obtain t where r: "r = CHR ''.'' # t" by (cases r) auto
    from a r have d: "decimalValue ip (takeWhile isDigit t) (dropWhile isDigit t) = Some (v, [])"
      by (simp add: fractionPart_def)
    have "CHR '','' \<notin> set (dropWhile isDigit t)" using d by (rule decimalValue_all)
    moreover have "CHR '','' \<notin> set (takeWhile isDigit t)" by (rule digits_no_comma)
    moreover have "set t = set (takeWhile isDigit t) \<union> set (dropWhile isDigit t)"
      by (metis set_append takeWhile_dropWhile_id)
    ultimately show ?thesis using r by auto
  next
    case False
    with a have "decimalValue ip [] r = Some (v, [])" by (auto simp: fractionPart_def)
    then show ?thesis by (rule decimalValue_all)
  qed
qed

lemma unsigned_all:
  "unsignedDecimalPrefix s = Some (v, []) \<Longrightarrow> CHR '','' \<notin> set s"
proof -
  assume a: "unsignedDecimalPrefix s = Some (v, [])"
  show ?thesis
  proof (cases "take 8 s = ''Infinity''")
    case True
    with a have "drop 8 s = []" by (simp add: unsignedDecimalPrefix_def)
    then have "s = take 8 s" by (metis append_Nil2 append_take_drop_id)
    with True have "s = ''Infinity''" by simp
    then show ?thesis by simp
  next
    case False
    with a have f: "fractionPart (takeWhile isDigit s) (dropWhile isDigit s) = Some (v, [])"
      by (simp add: unsignedDecimalPrefix_def)
    have "CHR '','' \<notin> set (dropWhile isDigit s)" using f by (rule fractionPart_all)
    moreover have "CHR '','' \<notin> set (takeWhile isDigit s)" by (rule digits_no_comma)
    moreover have "set s = set (takeWhile isDigit s) \<union> set (dropWhile isDigit s)"
      by (metis set_append takeWhile_dropWhile_id)
    ultimately show ?thesis by auto
  qed
qed

lemma decimalPrefix_all:
  "decimalPrefix s = Some (v, neg, []) \<Longrightarrow> CHR '','' \<notin> set s"
  by (cases s) (auto simp: decimalPrefix_def split: if_splits dest: unsigned_all)

lemma decimalLiteral_comma: "CHR '','' \<in> set t \<Longrightarrow> decimalLiteral t = NaN"
  by (auto simp: decimalLiteral_def split: option.splits dest: decimalPrefix_all)

lemma radixDigitValue_comma: "radixDigitValue CHR '','' = 16"
  by (simp add: radixDigitValue_def isDigit_def charCode_def)

lemma radixDigits_comma: "CHR '','' \<in> set ds \<Longrightarrow> b \<le> 16 \<Longrightarrow> radixDigits b ds = None"
proof -
  assume c: "CHR '','' \<in> set ds" and b: "b \<le> 16"
  have "\<not> list_all (\<lambda>c. radixDigitValue c < b) ds"
  proof
    assume "list_all (\<lambda>c. radixDigitValue c < b) ds"
    then have "radixDigitValue CHR '','' < b" using c by (simp add: list_all_iff)
    then show False using b by (simp add: radixDigitValue_comma)
  qed
  then show ?thesis by (simp add: radixDigits_def)
qed

lemma nonDecimal_comma: "CHR '','' \<in> set t \<Longrightarrow> nonDecimalLiteral t = None"
  by (auto simp: nonDecimalLiteral_def radixDigits_comma split: list.splits)

lemma StringToNumber_comma: "CHR '','' \<in> set s \<Longrightarrow> StringToNumber s = NaN"
proof -
  assume "CHR '','' \<in> set s"
  then have t: "CHR '','' \<in> set (trim s)" by (rule comma_in_trim)
  then have "trim s \<noteq> []" by auto
  then show ?thesis
    using t by (simp add: StringToNumber_def numericLiteral_def nonDecimal_comma decimalLiteral_comma)
qed

section \<open>Validation of numbers\<close>

lemma js_le_not_lt: "js_le a b \<Longrightarrow> \<not> js_lt b a"
  by (cases a; cases b) (auto simp: js_le_def js_eq_def)

text \<open>
  Claim C7. For a rule of type \<open>number\<close> and a value that is not empty (not \<open>""\<close>,
  \<open>null\<close> or \<open>undefined\<close>): a value whose \<open>Number(value)\<close> is \<open>NaN\<close> is rejected as
  not a number; one strictly below \<open>Number(rule.min)\<close> is rejected with the message that
  names the minimum; one strictly above \<open>Number(rule.max)\<close> is rejected, with the message
  that names the maximum unless it is below the minimum as well; and a value within the
  bounds that are set, both inclusive, is accepted. A bound is set when it is a string
  that is not empty.
\<close>

theorem validate_number_bounds:
  assumes t: "vr_type rule = TNumber"
    and ne: "v \<noteq> Str []" "v \<noteq> Null" "v \<noteq> Undefined"
  shows "(isNaN (Number_of v) \<longrightarrow> validateValue H v rule = Invalid msgNotNumber) \<and>
    (\<forall>lo. \<not> isNaN (Number_of v) \<and> vr_min rule = Some lo \<and> lo \<noteq> [] \<and>
          js_lt (Number_of v) (StringToNumber lo)
          \<longrightarrow> validateValue H v rule = Invalid (msgMin lo)) \<and>
    (\<forall>hi. \<not> isNaN (Number_of v) \<and> vr_max rule = Some hi \<and> hi \<noteq> [] \<and>
          js_gt (Number_of v) (StringToNumber hi)
          \<longrightarrow> validateValue H v rule \<noteq> Valid \<and>
              (belowMin (Number_of v) (vr_min rule) = None
               \<longrightarrow> validateValue H v rule = Invalid (msgMax hi))) \<and>
    (\<not> isNaN (Number_of v) \<and>
     (\<forall>lo. vr_min rule = Some lo \<and> lo \<noteq> [] \<longrightarrow> js_le (StringToNumber lo) (Number_of v)) \<and>
     (\<forall>hi. vr_max rule = Some hi \<and> hi \<noteq> [] \<longrightarrow> js_le (Number_of v) (StringToNumber hi))
     \<longrightarrow> validateValue H v rule = Valid)"
proof -
  have v: "validateValue H v rule = checkNumber v rule"
    using t ne by (simp add: validateValue_def)
  have a: "isNaN (Number_of v) \<longrightarrow> checkNumber v rule = Invalid msgNotNumber"
    by (simp add: checkNumber_def)
  have b: "\<forall>lo. \<not> isNaN (Number_of v) \<and> vr_min rule = Some lo \<and> lo \<noteq> [] \<and>
          js_lt (Number_of v) (StringToNumber lo)
          \<longrightarrow> checkNumber v rule = Invalid (msgMin lo)"
    by (simp add: checkNumber_def)
  have c: "\<forall>hi. \<not> isNaN (Number_of v) \<and> vr_max rule = Some hi \<and> hi \<noteq> [] \<and>
          js_gt (Number_of v) (StringToNumber hi)
          \<longrightarrow> checkNumber v rule \<noteq> Valid \<and>
              (belowMin (Number_of v) (vr_min rule) = None
               \<longrightarrow> checkNumber v rule = Invalid (msgMax hi))"
    by (auto simp: checkNumber_def split: option.splits)
  have d: "\<not> isNaN (Number_of v) \<and>
     (\<forall>lo. vr_min rule = Some lo \<and> lo \<noteq> [] \<longrightarrow> js_le (StringToNumber lo) (Number_of v)) \<and>
     (\<forall>hi. vr_max rule = Some hi \<and> hi \<noteq> [] \<longrightarrow> js_le (Number_of v) (StringToNumber hi))
     \<longrightarrow> checkNumber v rule = Valid"
  proof (intro impI, elim conjE)
    assume n: "\<not> isNaN (Number_of v)"
      and lo: "\<forall>lo. vr_min rule = Some lo \<and> lo \<noteq> [] \<longrightarrow> js_le (StringToNumber lo) (Number_of v)"
      and hi: "\<forall>hi. vr_max rule = Some hi \<and> hi \<noteq> [] \<longrightarrow> js_le (Number_of v) (StringToNumber hi)"
    have "belowMin (Number_of v) (vr_min rule) = None"
      using lo by (cases "vr_min rule") (auto dest: js_le_not_lt)
    moreover have "aboveMax (Number_of v) (vr_max rule) = None"
      using hi by (cases "vr_max rule") (auto simp: js_gt_def dest: js_le_not_lt)
    ultimately show "checkNumber v rule = Valid" using n by (simp add: checkNumber_def)
  qed
  show ?thesis unfolding v using a b c d by blast
qed

text \<open>
  With the bounds 0 and 10: \<open>abc\<close> is not a number, \<open>-1\<close> is below the minimum,
  \<open>10.5\<close> above the maximum, and \<open>10\<close> is accepted.
\<close>

theorem validate_number_bounds_witness:
  "validateValue \<lparr>parsesAsDate = (\<lambda>s. False)\<rparr> (Str ''abc'')
     \<lparr>vr_id = ''r1'', vr_columnIndex = 2, vr_type = TNumber, vr_min = Some ''0'',
      vr_max = Some ''10'', vr_options = None, vr_errorMessage = None\<rparr> = Invalid msgNotNumber \<and>
   validateValue \<lparr>parsesAsDate = (\<lambda>s. False)\<rparr> (Str ''-1'')
     \<lparr>vr_id = ''r1'', vr_columnIndex = 2, vr_type = TNumber, vr_min = Some ''0'',
      vr_max = Some ''10'', vr_options = None, vr_errorMessage = None\<rparr> = Invalid (msgMin ''0'') \<and>
   validateValue \<lparr>parsesAsDate = (\<lambda>s. False)\<rparr> (Str ''10.5'')
     \<lparr>vr_id = ''r1'', vr_columnIndex = 2, vr_type = TNumber, vr_min = Some ''0'',
      vr_max = Some ''10'', vr_options = None, vr_errorMessage = None\<rparr> = Invalid (msgMax ''10'') \<and>
   validateValue \<lparr>parsesAsDate = (\<lambda>s. False)\<rparr> (Str ''10'')
     \<lparr>vr_id = ''r1'', vr_columnIndex = 2, vr_type = TNumber, vr_min = Some ''0'',
      vr_max = Some ''10'', vr_options = None, vr_errorMessage = None\<rparr> = Valid"
proof -
  let ?H = "\<lparr>parsesAsDate = (\<lambda>s. False)\<rparr>"
  let ?r = "\<lparr>vr_id = ''r1'', vr_columnIndex = 2, vr_type = TNumber, vr_min = Some ''0'',
      vr_max = Some ''10'', vr_options = None, vr_errorMessage = None\<rparr>"
  have n1: "StringToNumber ''abc'' = NaN" by (simp add: js_eval)
  have n2: "StringToNumber ''-1'' = Fin (- 1)" by (simp add: js_eval)
  have n3: "StringToNumber ''10.5'' = Fin (21 / 2)" by (simp add: js_eval)
  have n4: "StringToNumber ''10'' = Fin 10" by (simp add: js_eval)
  have n5: "StringToNumber ''0'' = Fin 0" by (simp add: js_eval)
  have 1: "validateValue ?H (Str ''abc'') ?r = Invalid msgNotNumber"
    using validate_number_bounds [of ?r "Str ''abc''" ?H] by (simp add: n1 isNaN_def)
  have 2: "validateValue ?H (Str ''-1'') ?r = Invalid (msgMin ''0'')"
    using validate_number_bounds [of ?r "Str ''-1''" ?H] by (simp add: n2 n5 isNaN_def)
  have 3: "validateValue ?H (Str ''10.5'') ?r = Invalid (msgMax ''10'')"
    using validate_number_bounds [of ?r "Str ''10.5''" ?H]
    by (simp add: n3 n4 n5 isNaN_def js_gt_def)
  have 4: "validateValue ?H (Str ''10'') ?r = Valid"
    using validate_number_bounds [of ?r "Str ''10''" ?H]
    by (simp add: n4 n5 isNaN_def js_le_def js_eq_def)
  show ?thesis using 1 2 3 4 by simp
qed

section \<open>Conditional formats: the first matching rule\<close>

lemma firstMatch_find: "firstMatch v rs = map_option styleOf (find (ruleMatches v) rs)"
  by (induction rs) auto

lemma find_filter: "find P (filter Q xs) = find (\<lambda>x. Q x \<and> P x) xs"
  by (induction xs) auto

lemma find_first: "P x \<Longrightarrow> \<forall>p\<in>set pre. \<not> P p \<Longrightarrow> find P (pre @ x # post) = Some x"
  by (induction pre) auto

lemma find_none: "\<forall>x\<in>set xs. \<not> P x \<Longrightarrow> find P xs = None"
  by (induction xs) auto

lemma getCellStyle_find:
  "rowIndex \<noteq> 0 \<Longrightarrow>
   getCellStyle rules rowIndex colIndex v =
     map_option styleOf (find (\<lambda>r. cf_columnIndex r = colIndex \<and> ruleMatches v r) rules)"
proof -
  assume r: "rowIndex \<noteq> 0"
  show ?thesis
  proof (cases "filter (\<lambda>r. cf_columnIndex r = colIndex) rules = []")
    case True
    then have "\<forall>x\<in>set rules. \<not> (cf_columnIndex x = colIndex \<and> ruleMatches v x)"
      by (auto simp: filter_empty_conv)
    then have "find (\<lambda>r. cf_columnIndex r = colIndex \<and> ruleMatches v r) rules = None"
      by (rule find_none)
    with r True show ?thesis by (simp add: getCellStyle_def)
  next
    case False
    with r show ?thesis by (simp add: getCellStyle_def firstMatch_find find_filter)
  qed
qed

text \<open>
  Claim C1, as amended. At the header row (\<open>rowIndex = 0\<close>) \<open>getCellStyle\<close> returns no
  style, whatever the rules. At every other row, for every list of rules, column and
  value: when the list is \<open>pre @ r # post\<close>, \<open>r\<close> is on the column and matches the value,
  and no rule of \<open>pre\<close> is on the column and matches, the result is the style of \<open>r\<close>
  (its background and colour, with the font weight 500), whatever \<open>post\<close> holds; and when
  no rule is on the column and matches, the result is no style.
\<close>

theorem first_match_wins:
  "(rowIndex = 0 \<longrightarrow> getCellStyle rules rowIndex colIndex v = None) \<and>
   (rowIndex \<noteq> 0 \<longrightarrow>
      (\<forall>pre r post.
          rules = pre @ r # post \<and> cf_columnIndex r = colIndex \<and> ruleMatches v r \<and>
          (\<forall>p\<in>set pre. \<not> (cf_columnIndex p = colIndex \<and> ruleMatches v p))
          \<longrightarrow> getCellStyle rules rowIndex colIndex v = Some (styleOf r)) \<and>
      ((\<forall>r\<in>set rules. \<not> (cf_columnIndex r = colIndex \<and> ruleMatches v r))
          \<longrightarrow> getCellStyle rules rowIndex colIndex v = None))"
proof (intro conjI impI allI)
  assume "rowIndex = 0"
  then show "getCellStyle rules rowIndex colIndex v = None" by (simp add: getCellStyle_def)
next
  fix pre r post
  assume r: "rowIndex \<noteq> 0"
    and h: "rules = pre @ r # post \<and> cf_columnIndex r = colIndex \<and> ruleMatches v r \<and>
          (\<forall>p\<in>set pre. \<not> (cf_columnIndex p = colIndex \<and> ruleMatches v p))"
  have "find (\<lambda>r. cf_columnIndex r = colIndex \<and> ruleMatches v r) (pre @ r # post) = Some r"
    using h by (intro find_first) auto
  then show "getCellStyle rules rowIndex colIndex v = Some (styleOf r)"
    using r h by (simp add: getCellStyle_find)
next
  assume r: "rowIndex \<noteq> 0"
    and h: "\<forall>r\<in>set rules. \<not> (cf_columnIndex r = colIndex \<and> ruleMatches v r)"
  have "find (\<lambda>r. cf_columnIndex r = colIndex \<and> ruleMatches v r) rules = None"
    using h by (rule find_none)
  then show "getCellStyle rules rowIndex colIndex v = None"
    using r by (simp add: getCellStyle_find)
qed

lemma both_rules_match: "ruleMatches (Str ''7'') ruleGt5 \<and> ruleMatches (Str ''7'') ruleGt3"
proof -
  have "StringToNumber ''7'' = Fin 7" "StringToNumber ''5'' = Fin 5" "StringToNumber ''3'' = Fin 3"
    by (simp_all add: js_eval)
  then show ?thesis
    by (simp add: ruleMatches_def isNumber_def normalizedValue_def isNaN_def js_gt_def
        ruleGt5_def ruleGt3_def)
qed

text \<open>
  Two rules on column 0 that both match the value 7: at row 1 the cell gets the style
  of the first one, in either order of the two.
\<close>

theorem first_match_wins_witness:
  "getCellStyle [ruleGt5, ruleGt3] 1 0 (Str ''7'') = Some (styleOf ruleGt5) \<and>
   getCellStyle [ruleGt3, ruleGt5] 1 0 (Str ''7'') = Some (styleOf ruleGt3)"
proof -
  have c: "cf_columnIndex ruleGt5 = 0" "cf_columnIndex ruleGt3 = 0"
    by (simp_all add: ruleGt5_def ruleGt3_def)
  have 1: "getCellStyle [ruleGt5, ruleGt3] 1 0 (Str ''7'') = Some (styleOf ruleGt5)"
    using first_match_wins [of 1 "[ruleGt5, ruleGt3]" 0 "Str ''7''"] both_rules_match c
    by (auto dest!: spec [of _ "[]"])
  have 2: "getCellStyle [ruleGt3, ruleGt5] 1 0 (Str ''7'') = Some (styleOf ruleGt3)"
    using first_match_wins [of 1 "[ruleGt3, ruleGt5]" 0 "Str ''7''"] both_rules_match c
    by (auto dest!: spec [of _ "[]"])
  show ?thesis using 1 2 by simp
qed

text \<open>
  The claim as stated fails at the header row: both rules are on column 0 and match
  the value 7, and the cell at row 0 gets no style.
\<close>

theorem first_match_header_counterexample:
  "cf_columnIndex ruleGt5 = 0 \<and> cf_columnIndex ruleGt3 = 0 \<and>
   ruleMatches (Str ''7'') ruleGt5 \<and> ruleMatches (Str ''7'') ruleGt3 \<and>
   getCellStyle [ruleGt5, ruleGt3] 0 0 (Str ''7'') = None \<and>
   getCellStyle [ruleGt5, ruleGt3] 0 0 (Str ''7'') \<noteq> Some (styleOf ruleGt5)"
  using both_rules_match by (simp add: getCellStyle_def ruleGt5_def ruleGt3_def)

section \<open>Unlocking a sheet\<close>

lemma activeSheet_lockedState: "activeSheet (lockedState sh input) = Some sh"
  by (simp add: activeSheet_def lockedState_def)

lemma charCode_less: "charCode c < 256"
  by (simp add: charCode_def)

lemma charCode_char_of: "n < 256 \<Longrightarrow> charCode (char_of n) = n"
  by (simp add: charCode_def)

lemma charCode_inj: "charCode c = charCode d \<longleftrightarrow> c = d"
  by (simp add: charCode_def)

lemma lowerChar_code:
  "charCode (lowerChar c) =
     (if (65 \<le> charCode c \<and> charCode c \<le> 90) \<or>
         (192 \<le> charCode c \<and> charCode c \<le> 222 \<and> charCode c \<noteq> 215)
      then charCode c + 32 else charCode c)"
  by (simp add: lowerChar_def charCode_char_of)

lemma upper_lower_char:
  assumes c: "charCode c < 128"
    and d: "isDigit d \<or> (65 \<le> charCode d \<and> charCode d \<le> 90) \<or> d = CHR ''.''"
  shows "upperUnits c = [charCode d] \<longleftrightarrow> lowerChar c = lowerChar d"
proof -
  have p: "charCode CHR ''.'' = 46" by (simp add: charCode_def)
  have "lowerChar c = lowerChar d \<longleftrightarrow> charCode (lowerChar c) = charCode (lowerChar d)"
    by (simp add: charCode_inj)
  also have "\<dots> \<longleftrightarrow> upperUnits c = [charCode d]"
    using c d p by (auto simp: lowerChar_code upperUnits_def isDigit_def)
  finally show ?thesis by simp
qed

lemma upperUnits_ascii: "charCode c < 128 \<Longrightarrow> \<exists>u. upperUnits c = [u]"
  by (simp add: upperUnits_def)

lemma upper_eq_iff_lower_eq:
  "isAscii t \<Longrightarrow> issuedForm code \<Longrightarrow>
   toUpperCase t = units code \<longleftrightarrow> toLowerCase t = toLowerCase code"
proof (induction t arbitrary: code)
  case Nil
  then show ?case by (auto simp: toUpperCase_def units_def toLowerCase_def)
next
  case (Cons c t)
  from Cons.prems have c: "charCode c < 128" and t: "isAscii t" by (simp_all add: isAscii_def)
  from c obtain u where u: "upperUnits c = [u]" using upperUnits_ascii by blast
  show ?case
  proof (cases code)
    case Nil
    then show ?thesis using u by (simp add: toUpperCase_def units_def toLowerCase_def)
  next
    case (Cons d code')
    with Cons.prems have d: "isDigit d \<or> (65 \<le> charCode d \<and> charCode d \<le> 90) \<or> d = CHR ''.''"
      and i: "issuedForm code'" by (simp_all add: issuedForm_def)
    have ih: "toUpperCase t = units code' \<longleftrightarrow> toLowerCase t = toLowerCase code'"
      using t i by (rule Cons.IH)
    have "toUpperCase (c # t) = units code \<longleftrightarrow>
          upperUnits c = [charCode d] \<and> toUpperCase t = units code'"
      using u Cons by (auto simp: toUpperCase_def units_def)
    also have "\<dots> \<longleftrightarrow> lowerChar c = lowerChar d \<and> toLowerCase t = toLowerCase code'"
      using upper_lower_char [OF c d] ih by simp
    finally show ?thesis using Cons by (simp add: toLowerCase_def)
  qed
qed

lemma sameAs_iff_equalIgnoringCase:
  "isAscii t \<Longrightarrow> issuedOrAbsent code \<Longrightarrow> sameAs (toUpperCase t) code = equalIgnoringCase t code"
  by (cases code)
     (simp_all add: sameAs_def equalIgnoringCase_def issuedOrAbsent_def upper_eq_iff_lower_eq)

lemma issuedCode_form: "base36 raw \<Longrightarrow> issuedForm (issuedCode raw)"
proof (induction raw)
  case Nil
  then show ?case by (simp add: issuedCode_def issuedForm_def toUpperCase_def fromUnits_def)
next
  case (Cons c raw)
  then have c: "isDigit c \<or> (97 \<le> charCode c \<and> charCode c \<le> 122) \<or> c = CHR ''.''"
    and ih: "issuedForm (issuedCode raw)" by (simp_all add: base36_def)
  have p: "charCode CHR ''.'' = 46" by (simp add: charCode_def)
  have l: "charCode c < 256" by (rule charCode_less)
  have "\<exists>u. upperUnits c = [u] \<and> u < 256 \<and>
            ((48 \<le> u \<and> u \<le> 57) \<or> (65 \<le> u \<and> u \<le> 90) \<or> u = 46)"
    using c p l by (auto simp: upperUnits_def isDigit_def)
  then obtain u where u: "upperUnits c = [u]" "u < 256"
      "(48 \<le> u \<and> u \<le> 57) \<or> (65 \<le> u \<and> u \<le> 90) \<or> u = 46" by blast
  have "charCode (char_of u) = u" using u(2) by (rule charCode_char_of)
  then have "isDigit (char_of u) \<or> (65 \<le> charCode (char_of u) \<and> charCode (char_of u) \<le> 90) \<or>
      char_of u = CHR ''.''"
    using u(3) p by (auto simp: isDigit_def charCode_inj [symmetric])
  then show ?case
    using ih u(1) by (simp add: issuedCode_def issuedForm_def toUpperCase_def fromUnits_def)
qed

lemma not_expired_at_expiration: "accessCodeExpiration a = Some e \<Longrightarrow> \<not> expired a e"
  by (cases e) (simp_all add: expired_def js_gt_def)

lemma find_Some_id: "find (\<lambda>s. sheet_id s = i) xs = Some a \<Longrightarrow> sheet_id a = i"
  by (induction xs) (auto split: if_splits)

lemma activeSheet_id:
  "activeSheet st = Some a \<Longrightarrow> activeSheetId st = Some (sheet_id a)"
  by (auto simp: activeSheet_def split: option.splits dest: find_Some_id)

lemma find_replaceSheet:
  "find (\<lambda>s. sheet_id s = i) xs = Some a \<Longrightarrow> sheet_id u = i \<Longrightarrow>
   find (\<lambda>s. sheet_id s = i) (replaceSheet i u xs) = Some u"
  by (induction xs) (auto simp: replaceSheet_def split: if_splits)

text \<open>
  Claim C2, as amended. For every state whose active sheet has an expiration \<open>e\<close>:
  when \<open>e\<close> is neither 0 nor \<open>NaN\<close> and \<open>Date.now()\<close> is strictly greater than \<open>e\<close>,
  \<open>handleUnlockSheet\<close> only sets the error to the message about expired codes, whatever
  the input is, and no access level is granted (\<open>unlockedSheets\<close> is as before). At the
  instant \<open>Date.now() = e\<close> the sheet is not expired and all three codes still work: the
  edit code grants edit, the view code grants view, the legacy code grants edit.
\<close>

theorem unlock_expired:
  assumes "activeSheet st = Some a" and "accessCodeExpiration a = Some e"
  shows
    "(numberTruthy e \<and> js_gt now e \<longrightarrow>
        handleUnlockSheet now st = st\<lparr>accessError := Some msgExpired\<rparr> \<and>
        unlockedSheets (handleUnlockSheet now st) = unlockedSheets st) \<and>
     \<not> expired a e \<and>
     (sameAs (toUpperCase (trim (accessCodeInput st))) (editCode a)
        \<longrightarrow> handleUnlockSheet e st = grant (sheet_id a) Edit st) \<and>
     (\<not> sameAs (toUpperCase (trim (accessCodeInput st))) (editCode a) \<and>
      sameAs (toUpperCase (trim (accessCodeInput st))) (viewCode a)
        \<longrightarrow> handleUnlockSheet e st = grant (sheet_id a) View st) \<and>
     (\<not> sameAs (toUpperCase (trim (accessCodeInput st))) (editCode a) \<and>
      \<not> sameAs (toUpperCase (trim (accessCodeInput st))) (viewCode a) \<and>
      sameAs (toUpperCase (trim (accessCodeInput st))) (accessCode a)
        \<longrightarrow> handleUnlockSheet e st = grant (sheet_id a) Edit st)"
proof -
  have n: "\<not> expired a e" using assms(2) by (rule not_expired_at_expiration)
  have 1: "numberTruthy e \<and> js_gt now e \<longrightarrow>
        handleUnlockSheet now st = st\<lparr>accessError := Some msgExpired\<rparr> \<and>
        unlockedSheets (handleUnlockSheet now st) = unlockedSheets st"
    using assms by (simp add: handleUnlockSheet_def expired_def)
  show ?thesis using 1 n assms(1) by (simp add: handleUnlockSheet_def)
qed

text \<open>
  The codes of the example sheet expire at 1000. At 1001 the right view code and the
  right edit code are both refused with the message about expired codes; at 1000 the
  view code still unlocks the sheet for viewing.
\<close>

theorem unlock_expired_witness:
  "handleUnlockSheet (Fin 1001) (lockedState sharedSheet ''XYZ789'') =
     (lockedState sharedSheet ''XYZ789'')\<lparr>accessError := Some msgExpired\<rparr> \<and>
   unlockedSheets (handleUnlockSheet (Fin 1001) (lockedState sharedSheet ''ABC123'')) ''s1'' = None \<and>
   handleUnlockSheet (Fin 1000) (lockedState sharedSheet ''XYZ789'') =
     grant ''s1'' View (lockedState sharedSheet ''XYZ789'')"
proof -
  have e: "accessCodeExpiration sharedSheet = Some (Fin 1000)" by (simp add: sharedSheet_def)
  have t: "numberTruthy (Fin 1000)" by (simp add: numberTruthy_def)
  have g: "js_gt (Fin 1001) (Fin 1000)" by (simp add: js_gt_def)
  have u: "toUpperCase (trim ''XYZ789'') = units ''XYZ789''" by (simp add: js_eval)
  have c: "editCode sharedSheet = Some ''ABC123''" "viewCode sharedSheet = Some ''XYZ789''"
    "sheet_id sharedSheet = ''s1''"
    by (simp_all add: sharedSheet_def)
  have d: "units ''XYZ789'' \<noteq> units ''ABC123''" by (simp add: units_def charCode_def)
  have i: "\<And>x. accessCodeInput (lockedState sharedSheet x) = x" by (simp add: lockedState_def)
  have 1: "handleUnlockSheet (Fin 1001) (lockedState sharedSheet ''XYZ789'') =
     (lockedState sharedSheet ''XYZ789'')\<lparr>accessError := Some msgExpired\<rparr>"
    using unlock_expired [OF activeSheet_lockedState [of sharedSheet "''XYZ789''"] e,
        where now = "Fin 1001"] t g by simp
  have 2: "unlockedSheets (handleUnlockSheet (Fin 1001) (lockedState sharedSheet ''ABC123'')) ''s1'' = None"
    using unlock_expired [OF activeSheet_lockedState [of sharedSheet "''ABC123''"] e,
        where now = "Fin 1001"] t g
    by (simp add: lockedState_def)
  have 3: "handleUnlockSheet (Fin 1000) (lockedState sharedSheet ''XYZ789'') =
     grant ''s1'' View (lockedState sharedSheet ''XYZ789'')"
    using unlock_expired [OF activeSheet_lockedState [of sharedSheet "''XYZ789''"] e,
        where now = "Fin 1001"]
    by (simp add: sameAs_def i u c d)
  show ?thesis using 1 2 3 by simp
qed

text \<open>
  The claim as stated fails at the instant of expiration: with \<open>Date.now()\<close> equal to
  \<open>accessCodeExpiration\<close> (so \<open>now >= accessCodeExpiration\<close>) the edit code still
  unlocks the sheet for editing.
\<close>

theorem unlock_at_expiration_counterexample:
  "accessCodeExpiration sharedSheet = Some (Fin 1000) \<and>
   js_ge (Fin 1000) (Fin 1000) \<and>
   unlockedSheets (handleUnlockSheet (Fin 1000) (lockedState sharedSheet ''ABC123'')) ''s1''
     = Some Edit \<and>
   accessError (handleUnlockSheet (Fin 1000) (lockedState sharedSheet ''ABC123'')) = None"
proof -
  have u: "toUpperCase (trim ''ABC123'') = units ''ABC123''" by (simp add: js_eval)
  have ne: "\<not> expired sharedSheet (Fin 1000)"
    by (simp add: expired_def sharedSheet_def js_gt_def)
  have c: "editCode sharedSheet = Some ''ABC123''" "sheet_id sharedSheet = ''s1''"
    "accessCodeExpiration sharedSheet = Some (Fin 1000)"
    by (simp_all add: sharedSheet_def)
  have i: "accessCodeInput (lockedState sharedSheet ''ABC123'') = ''ABC123''"
    by (simp add: lockedState_def)
  have h: "handleUnlockSheet (Fin 1000) (lockedState sharedSheet ''ABC123'') =
      grant ''s1'' Edit (lockedState sharedSheet ''ABC123'')"
    by (simp add: handleUnlockSheet_def activeSheet_lockedState ne u c i sameAs_def)
  show ?thesis
    by (simp add: h c grant_def js_ge_def js_le_def js_eq_def)
qed

text \<open>
  Claim C4, as amended. For every state whose active sheet is not expired and every
  input: \<open>handleUnlockSheet\<close> trims the input and converts it to upper case, and compares
  the result for equality with the stored codes in the order \<open>editCode\<close> (granting
  edit), \<open>viewCode\<close> (granting view), legacy \<open>accessCode\<close> (granting edit); when it equals
  none of them the only change is the error \<open>C\<close>U+00F3\<open>digo incorreto.\<close>, and no access
  level is granted. When the codes of the sheet have the form of issued codes (digits,
  upper-case letters, the point) and the trimmed input is ASCII, this is the comparison
  of the trimmed input with the codes up to the case of the letters, in the same order,
  and a trimmed input that equals none of them up to case is rejected. The codes that
  \<open>handleCreateAccessCode\<close> stores have that form.
\<close>

theorem unlock_compares_in_order:
  assumes "activeSheet st = Some a" and "\<not> expired a now"
  shows
    "(sameAs (toUpperCase (trim (accessCodeInput st))) (editCode a)
        \<longrightarrow> handleUnlockSheet now st = grant (sheet_id a) Edit st) \<and>
     (\<not> sameAs (toUpperCase (trim (accessCodeInput st))) (editCode a) \<and>
      sameAs (toUpperCase (trim (accessCodeInput st))) (viewCode a)
        \<longrightarrow> handleUnlockSheet now st = grant (sheet_id a) View st) \<and>
     (\<not> sameAs (toUpperCase (trim (accessCodeInput st))) (editCode a) \<and>
      \<not> sameAs (toUpperCase (trim (accessCodeInput st))) (viewCode a) \<and>
      sameAs (toUpperCase (trim (accessCodeInput st))) (accessCode a)
        \<longrightarrow> handleUnlockSheet now st = grant (sheet_id a) Edit st) \<and>
     (\<not> sameAs (toUpperCase (trim (accessCodeInput st))) (editCode a) \<and>
      \<not> sameAs (toUpperCase (trim (accessCodeInput st))) (viewCode a) \<and>
      \<not> sameAs (toUpperCase (trim (accessCodeInput st))) (accessCode a)
        \<longrightarrow> handleUnlockSheet now st = st\<lparr>accessError := Some msgIncorrect\<rparr> \<and>
            unlockedSheets (handleUnlockSheet now st) = unlockedSheets st) \<and>
     (isAscii (trim (accessCodeInput st)) \<and> issuedOrAbsent (editCode a) \<and>
      issuedOrAbsent (viewCode a) \<and> issuedOrAbsent (accessCode a)
        \<longrightarrow> handleUnlockSheet now st =
            (if equalIgnoringCase (trim (accessCodeInput st)) (editCode a)
             then grant (sheet_id a) Edit st
             else if equalIgnoringCase (trim (accessCodeInput st)) (viewCode a)
             then grant (sheet_id a) View st
             else if equalIgnoringCase (trim (accessCodeInput st)) (accessCode a)
             then grant (sheet_id a) Edit st
             else st\<lparr>accessError := Some msgIncorrect\<rparr>)) \<and>
     (\<forall>t n unit rawEdit rawView b.
        base36 rawEdit \<and> base36 rawView \<and>
        activeSheet (handleCreateAccessCode t n unit rawEdit rawView st) = Some b
        \<longrightarrow> issuedOrAbsent (editCode b) \<and> issuedOrAbsent (viewCode b))"
proof -
  let ?u = "toUpperCase (trim (accessCodeInput st))"
  have h: "handleUnlockSheet now st =
      (if sameAs ?u (editCode a) then grant (sheet_id a) Edit st
       else if sameAs ?u (viewCode a) then grant (sheet_id a) View st
       else if sameAs ?u (accessCode a) then grant (sheet_id a) Edit st
       else st\<lparr>accessError := Some msgIncorrect\<rparr>)"
    using assms by (simp add: handleUnlockSheet_def)
  have ci: "isAscii (trim (accessCodeInput st)) \<and> issuedOrAbsent (editCode a) \<and>
      issuedOrAbsent (viewCode a) \<and> issuedOrAbsent (accessCode a)
        \<longrightarrow> handleUnlockSheet now st =
            (if equalIgnoringCase (trim (accessCodeInput st)) (editCode a)
             then grant (sheet_id a) Edit st
             else if equalIgnoringCase (trim (accessCodeInput st)) (viewCode a)
             then grant (sheet_id a) View st
             else if equalIgnoringCase (trim (accessCodeInput st)) (accessCode a)
             then grant (sheet_id a) Edit st
             else st\<lparr>accessError := Some msgIncorrect\<rparr>)"
    unfolding h by (simp add: sameAs_iff_equalIgnoringCase)
  have iss: "\<forall>t n unit rawEdit rawView b.
        base36 rawEdit \<and> base36 rawView \<and>
        activeSheet (handleCreateAccessCode t n unit rawEdit rawView st) = Some b
        \<longrightarrow> issuedOrAbsent (editCode b) \<and> issuedOrAbsent (viewCode b)"
  proof (intro allI impI, elim conjE)
    fix t n unit rawEdit rawView b
    assume r: "base36 rawEdit" "base36 rawView"
      and b: "activeSheet (handleCreateAccessCode t n unit rawEdit rawView st) = Some b"
    let ?a' = "a\<lparr>editCode := Some (issuedCode rawEdit), viewCode := Some (issuedCode rawView),
                 accessCodeExpiration :=
                   Some (js_add t (fl (of_nat n * multiplier unit))),
                 isShared := Some True\<rparr>"
    have id: "activeSheetId st = Some (sheet_id a)" using assms(1) by (rule activeSheet_id)
    have f: "find (\<lambda>s. sheet_id s = sheet_id a) (sheets st) = Some a"
      using assms(1) id by (simp add: activeSheet_def)
    have "find (\<lambda>s. sheet_id s = sheet_id a) (replaceSheet (sheet_id a) ?a' (sheets st)) = Some ?a'"
      using f by (rule find_replaceSheet) simp
    then have "b = ?a'"
      using b assms(1) id by (simp add: handleCreateAccessCode_def activeSheet_def)
    then show "issuedOrAbsent (editCode b) \<and> issuedOrAbsent (viewCode b)"
      using r by (simp add: issuedOrAbsent_def issuedCode_form)
  qed
  show ?thesis using h ci iss by simp
qed

lemma sharedSheet_issued:
  "issuedOrAbsent (editCode sharedSheet) \<and> issuedOrAbsent (viewCode sharedSheet) \<and>
   issuedOrAbsent (accessCode sharedSheet)"
  by (simp add: sharedSheet_def issuedOrAbsent_def issuedForm_def isDigit_def charCode_def)

text \<open>
  Before the expiration: the edit code in lower case and with a space before it
  unlocks for editing, the view code in lower case for viewing, and another string is
  refused.
\<close>

theorem unlock_compares_in_order_witness:
  "handleUnlockSheet (Fin 999) (lockedState sharedSheet '' abc123'') =
     grant ''s1'' Edit (lockedState sharedSheet '' abc123'') \<and>
   handleUnlockSheet (Fin 999) (lockedState sharedSheet ''xyz789'') =
     grant ''s1'' View (lockedState sharedSheet ''xyz789'') \<and>
   handleUnlockSheet (Fin 999) (lockedState sharedSheet ''QQQ111'') =
     (lockedState sharedSheet ''QQQ111'')\<lparr>accessError := Some msgIncorrect\<rparr>"
proof -
  have ne: "\<not> expired sharedSheet (Fin 999)"
    by (simp add: expired_def sharedSheet_def js_gt_def)
  have t: "trim '' abc123'' = ''abc123''" "trim ''xyz789'' = ''xyz789''"
    "trim ''QQQ111'' = ''QQQ111''"
    by (simp_all add: js_eval)
  have a: "isAscii ''abc123''" "isAscii ''xyz789''" "isAscii ''QQQ111''"
    by (simp_all add: isAscii_def charCode_def)
  have l: "toLowerCase ''abc123'' = ''abc123''" "toLowerCase ''ABC123'' = ''abc123''"
    "toLowerCase ''xyz789'' = ''xyz789''" "toLowerCase ''XYZ789'' = ''xyz789''"
    "toLowerCase ''QQQ111'' = ''qqq111''"
    by (simp_all add: js_eval)
  have i: "\<And>x. accessCodeInput (lockedState sharedSheet x) = x" by (simp add: lockedState_def)
  have c: "editCode sharedSheet = Some ''ABC123''" "viewCode sharedSheet = Some ''XYZ789''"
    "accessCode sharedSheet = None" "sheet_id sharedSheet = ''s1''"
    by (simp_all add: sharedSheet_def)
  have 1: "handleUnlockSheet (Fin 999) (lockedState sharedSheet '' abc123'') =
     grant ''s1'' Edit (lockedState sharedSheet '' abc123'')"
    using unlock_compares_in_order [OF activeSheet_lockedState [of sharedSheet "'' abc123''"] ne]
      sharedSheet_issued
    by (simp add: t a l i c equalIgnoringCase_def)
  have 2: "handleUnlockSheet (Fin 999) (lockedState sharedSheet ''xyz789'') =
     grant ''s1'' View (lockedState sharedSheet ''xyz789'')"
    using unlock_compares_in_order [OF activeSheet_lockedState [of sharedSheet "''xyz789''"] ne]
      sharedSheet_issued
    by (simp add: t a l i c equalIgnoringCase_def)
  have 3: "handleUnlockSheet (Fin 999) (lockedState sharedSheet ''QQQ111'') =
     (lockedState sharedSheet ''QQQ111'')\<lparr>accessError := Some msgIncorrect\<rparr>"
    using unlock_compares_in_order [OF activeSheet_lockedState [of sharedSheet "''QQQ111''"] ne]
      sharedSheet_issued
    by (simp add: t a l i c equalIgnoringCase_def)
  show ?thesis using 1 2 3 by simp
qed

text \<open>
  The claim as stated fails on an input with white space around the code. The example
  sheet is not expired at 999 and its codes are \<open>ABC123\<close> and \<open>XYZ789\<close>, with no legacy
  code. The input \<open> abc123\<close>, with its leading space, equals none of them even when the
  case of the letters is ignored, and it is granted edit access.
\<close>

theorem unlock_case_counterexample:
  "\<not> expired sharedSheet (Fin 999) \<and>
   \<not> equalIgnoringCase '' abc123'' (editCode sharedSheet) \<and>
   \<not> equalIgnoringCase '' abc123'' (viewCode sharedSheet) \<and>
   \<not> equalIgnoringCase '' abc123'' (accessCode sharedSheet) \<and>
   unlockedSheets (handleUnlockSheet (Fin 999) (lockedState sharedSheet '' abc123'')) ''s1''
     = Some Edit \<and>
   accessError (handleUnlockSheet (Fin 999) (lockedState sharedSheet '' abc123'')) = None"
proof -
  have u: "toUpperCase (trim '' abc123'') = units ''ABC123''" by (simp add: js_eval)
  have l: "toLowerCase '' abc123'' \<noteq> toLowerCase ''ABC123''"
    "toLowerCase '' abc123'' \<noteq> toLowerCase ''XYZ789''"
    by (simp_all add: js_eval)
  have ne: "\<not> expired sharedSheet (Fin 999)"
    by (simp add: expired_def sharedSheet_def js_gt_def)
  have c: "editCode sharedSheet = Some ''ABC123''" "viewCode sharedSheet = Some ''XYZ789''"
    "accessCode sharedSheet = None" "sheet_id sharedSheet = ''s1''"
    by (simp_all add: sharedSheet_def)
  have i: "\<And>x. accessCodeInput (lockedState sharedSheet x) = x"
    by (simp add: lockedState_def)
  have h: "handleUnlockSheet (Fin 999) (lockedState sharedSheet '' abc123'') =
      grant ''s1'' Edit (lockedState sharedSheet '' abc123'')"
    by (simp add: handleUnlockSheet_def activeSheet_lockedState ne u c i sameAs_def)
  show ?thesis
    using l ne by (simp add: h c grant_def equalIgnoringCase_def)
qed

section \<open>Numbers with a decimal comma\<close>

lemma str_includes_single: "str_includes s [c] \<longleftrightarrow> c \<in> set s"
  by (induction s) auto

lemma replaceFirst_absent: "a \<notin> set s \<Longrightarrow> replaceFirst a b s = s"
  by (induction s) auto

lemma replaceFirst_Nil_iff: "replaceFirst a b s = [] \<longleftrightarrow> s = []"
  by (cases s) auto

lemma numeric_no_comma: "StringToNumber s \<noteq> NaN \<Longrightarrow> CHR '','' \<notin> set s"
  using StringToNumber_comma by blast

lemma firstMatch_cong:
  "(\<And>rule. ruleMatches v rule = ruleMatches w rule) \<Longrightarrow> firstMatch v rs = firstMatch w rs"
  by (induction rs) auto

lemma getCellStyle_cong:
  "(\<And>rule. ruleMatches v rule = ruleMatches w rule) \<Longrightarrow>
   getCellStyle rules r c v = getCellStyle rules r c w"
  by (simp add: getCellStyle_def firstMatch_cong [of v w])

lemma isNumber_comma:
  assumes "s \<noteq> []" and "\<not> isNaN (StringToNumber (replaceFirst CHR '','' CHR ''.'' s))"
  shows "isNumber (Str s)" and "isNumber (Str (replaceFirst CHR '','' CHR ''.'' s))"
    and "Number_of (normalizedValue (Str (replaceFirst CHR '','' CHR ''.'' s))) =
         Number_of (normalizedValue (Str s))"
proof -
  let ?p = "replaceFirst CHR '','' CHR ''.'' s"
  have "CHR '','' \<notin> set ?p" using assms(2) by (intro numeric_no_comma) (simp add: isNaN_def)
  then have i: "replaceFirst CHR '','' CHR ''.'' ?p = ?p" by (rule replaceFirst_absent)
  show "isNumber (Str s)" using assms by (simp add: isNumber_def normalizedValue_def)
  show "isNumber (Str ?p)"
    using assms i by (simp add: isNumber_def normalizedValue_def replaceFirst_Nil_iff)
  show "Number_of (normalizedValue (Str ?p)) = Number_of (normalizedValue (Str s))"
    using i by (simp add: normalizedValue_def)
qed

lemma ruleMatches_comma:
  assumes "s \<noteq> []" and "\<not> isNaN (StringToNumber (replaceFirst CHR '','' CHR ''.'' s))"
  shows "ruleMatches (Str s) rule = ruleMatches (Str (replaceFirst CHR '','' CHR ''.'' s)) rule"
proof -
  note n = isNumber_comma [OF assms]
  show ?thesis by (cases "cf_condition rule") (simp_all add: ruleMatches_def n)
qed

text \<open>
  Claim C10. For every rule of type \<open>number\<close> and every string \<open>s\<close> that contains a
  comma:

  \<^item> \<open>validateValue\<close> parses \<open>s\<close> with \<open>Number\<close> as it is and rejects it as not a number;

  \<^item> the average computation parses \<open>s\<close> with its first comma replaced by a period:
    when that parses, and the other operand \<open>t\<close> is not empty and parses in the same
    way, \<open>averageText\<close> writes the average of the two parsed numbers, with a comma;

  \<^item> conditional-format matching parses \<open>s\<close> with its first comma replaced by a
    period: when that is a number, \<open>s\<close> is taken for that number, every rule matches
    \<open>s\<close> by comparing that number with the number of the rule, and \<open>getCellStyle\<close>
    gives \<open>s\<close> the style it gives the string written with the period.
\<close>

theorem number_validation_keeps_comma:
  assumes "vr_type rule = TNumber" and "CHR '','' \<in> set s"
  shows
    "validateValue H (Str s) rule = Invalid msgNotNumber \<and>
     (\<forall>t. \<not> isNaN (parseFloat (replaceFirst CHR '','' CHR ''.'' s)) \<and> t \<noteq> [] \<and>
          \<not> isNaN (parseFloat (replaceFirst CHR '','' CHR ''.'' t))
          \<longrightarrow> averageText (Str s) (Str t) =
              Some (replaceFirst CHR ''.'' CHR '',''
                      (toFixed1 (js_half (js_add (parseFloat (replaceFirst CHR '','' CHR ''.'' s))
                                                 (parseFloat (replaceFirst CHR '','' CHR ''.'' t))))))) \<and>
     (\<not> isNaN (StringToNumber (replaceFirst CHR '','' CHR ''.'' s))
        \<longrightarrow> isNumber (Str s) \<and>
            (\<forall>cr. ruleMatches (Str s) cr =
                   (case cf_condition cr of
                      Gt \<Rightarrow> js_gt (StringToNumber (replaceFirst CHR '','' CHR ''.'' s))
                                   (Number_of (cf_value cr))
                    | Lt \<Rightarrow> js_lt (StringToNumber (replaceFirst CHR '','' CHR ''.'' s))
                                   (Number_of (cf_value cr))
                    | Gte \<Rightarrow> js_ge (StringToNumber (replaceFirst CHR '','' CHR ''.'' s))
                                    (Number_of (cf_value cr))
                    | Lte \<Rightarrow> js_le (StringToNumber (replaceFirst CHR '','' CHR ''.'' s))
                                    (Number_of (cf_value cr))
                    | Eq \<Rightarrow> js_eq (StringToNumber (replaceFirst CHR '','' CHR ''.'' s))
                                   (Number_of (cf_value cr))
                    | Contains \<Rightarrow> False)) \<and>
            (\<forall>rules r c. getCellStyle rules r c (Str s) =
                          getCellStyle rules r c (Str (replaceFirst CHR '','' CHR ''.'' s))))"
proof -
  let ?p = "replaceFirst CHR '','' CHR ''.'' s"
  have s: "s \<noteq> []" using assms(2) by auto
  have "StringToNumber s = NaN" using assms(2) by (rule StringToNumber_comma)
  then have 1: "validateValue H (Str s) rule = Invalid msgNotNumber"
    using assms(1) s by (simp add: validateValue_def checkNumber_def isNaN_def)
  have hc: "hasComma (Str s)" using assms(2) by (simp add: hasComma_def str_includes_single)
  have op: "\<And>x. x \<noteq> [] \<Longrightarrow> operandText (Str x) = replaceFirst CHR '','' CHR ''.'' x"
    by (simp add: operandText_def orElse_def)
  have 2: "\<forall>t. \<not> isNaN (parseFloat ?p) \<and> t \<noteq> [] \<and>
          \<not> isNaN (parseFloat (replaceFirst CHR '','' CHR ''.'' t))
          \<longrightarrow> averageText (Str s) (Str t) =
              Some (replaceFirst CHR ''.'' CHR '',''
                      (toFixed1 (js_half (js_add (parseFloat ?p)
                                                 (parseFloat (replaceFirst CHR '','' CHR ''.'' t))))))"
    using s hc by (simp add: averageText_def average_def op)
  have 3: "\<not> isNaN (StringToNumber ?p)
        \<longrightarrow> isNumber (Str s) \<and>
            (\<forall>cr. ruleMatches (Str s) cr =
                   (case cf_condition cr of
                      Gt \<Rightarrow> js_gt (StringToNumber ?p) (Number_of (cf_value cr))
                    | Lt \<Rightarrow> js_lt (StringToNumber ?p) (Number_of (cf_value cr))
                    | Gte \<Rightarrow> js_ge (StringToNumber ?p) (Number_of (cf_value cr))
                    | Lte \<Rightarrow> js_le (StringToNumber ?p) (Number_of (cf_value cr))
                    | Eq \<Rightarrow> js_eq (StringToNumber ?p) (Number_of (cf_value cr))
                    | Contains \<Rightarrow> False)) \<and>
            (\<forall>rules r c. getCellStyle rules r c (Str s) = getCellStyle rules r c (Str ?p))"
  proof
    assume n: "\<not> isNaN (StringToNumber ?p)"
    have i: "isNumber (Str s)" using s n by (rule isNumber_comma(1))
    have m: "\<forall>cr. ruleMatches (Str s) cr =
                   (case cf_condition cr of
                      Gt \<Rightarrow> js_gt (StringToNumber ?p) (Number_of (cf_value cr))
                    | Lt \<Rightarrow> js_lt (StringToNumber ?p) (Number_of (cf_value cr))
                    | Gte \<Rightarrow> js_ge (StringToNumber ?p) (Number_of (cf_value cr))
                    | Lte \<Rightarrow> js_le (StringToNumber ?p) (Number_of (cf_value cr))
                    | Eq \<Rightarrow> js_eq (StringToNumber ?p) (Number_of (cf_value cr))
                    | Contains \<Rightarrow> False)"
    proof
      fix cr
      show "ruleMatches (Str s) cr =
                   (case cf_condition cr of
                      Gt \<Rightarrow> js_gt (StringToNumber ?p) (Number_of (cf_value cr))
                    | Lt \<Rightarrow> js_lt (StringToNumber ?p) (Number_of (cf_value cr))
                    | Gte \<Rightarrow> js_ge (StringToNumber ?p) (Number_of (cf_value cr))
                    | Lte \<Rightarrow> js_le (StringToNumber ?p) (Number_of (cf_value cr))
                    | Eq \<Rightarrow> js_eq (StringToNumber ?p) (Number_of (cf_value cr))
                    | Contains \<Rightarrow> False)"
        using i by (cases "cf_condition cr") (simp_all add: ruleMatches_def normalizedValue_def)
    qed
    have g: "\<forall>rules r c. getCellStyle rules r c (Str s) = getCellStyle rules r c (Str ?p)"
      using ruleMatches_comma [OF s n] by (intro allI getCellStyle_cong)
    show "isNumber (Str s) \<and>
            (\<forall>cr. ruleMatches (Str s) cr =
                   (case cf_condition cr of
                      Gt \<Rightarrow> js_gt (StringToNumber ?p) (Number_of (cf_value cr))
                    | Lt \<Rightarrow> js_lt (StringToNumber ?p) (Number_of (cf_value cr))
                    | Gte \<Rightarrow> js_ge (StringToNumber ?p) (Number_of (cf_value cr))
                    | Lte \<Rightarrow> js_le (StringToNumber ?p) (Number_of (cf_value cr))
                    | Eq \<Rightarrow> js_eq (StringToNumber ?p) (Number_of (cf_value cr))
                    | Contains \<Rightarrow> False)) \<and>
            (\<forall>rules r c. getCellStyle rules r c (Str s) = getCellStyle rules r c (Str ?p))"
      using i m g by blast
  qed
  show ?thesis using 1 2 3 by blast
qed

text \<open>
  The value \<open>7,5\<close>: a rule of type \<open>number\<close> rejects it; with the other operand \<open>8\<close>
  the average written is \<open>7,8\<close>; and the rule \<open>> 5\<close> matches it.
\<close>

theorem number_validation_keeps_comma_witness:
  "validateValue \<lparr>parsesAsDate = (\<lambda>s. False)\<rparr> (Str ''7,5'')
     \<lparr>vr_id = ''r1'', vr_columnIndex = 0, vr_type = TNumber, vr_min = None,
      vr_max = None, vr_options = None, vr_errorMessage = None\<rparr> = Invalid msgNotNumber \<and>
   averageText (Str ''7,5'') (Str ''8'') = Some ''7,8'' \<and>
   ruleMatches (Str ''7,5'') ruleGt5"
proof -
  let ?r = "\<lparr>vr_id = ''r1'', vr_columnIndex = 0, vr_type = TNumber, vr_min = None,
          vr_max = None, vr_options = None, vr_errorMessage = None\<rparr>"
  let ?H = "\<lparr>parsesAsDate = (\<lambda>s. False)\<rparr>"
  note th = number_validation_keeps_comma [of ?r "''7,5''" ?H]
  have p: "parseFloat ''7.5'' = Fin (15 / 2)" "parseFloat ''8'' = Fin 8"
    "StringToNumber ''7.5'' = Fin (15 / 2)" "StringToNumber ''5'' = Fin 5"
    by (simp_all add: js_eval)
  have f: "toFixed1 (js_half (js_add (Fin (15 / 2)) (Fin 8))) = ''7.8''" by (simp add: js_eval)
  have 1: "validateValue ?H (Str ''7,5'') ?r = Invalid msgNotNumber" using th by simp
  have r: "replaceFirst CHR '','' CHR ''.'' ''7,5'' = ''7.5''"
    "replaceFirst CHR '','' CHR ''.'' ''8'' = ''8''"
    "replaceFirst CHR ''.'' CHR '','' ''7.8'' = ''7,8''"
    by simp_all
  have "\<forall>t. \<not> isNaN (parseFloat (replaceFirst CHR '','' CHR ''.'' ''7,5'')) \<and> t \<noteq> [] \<and>
          \<not> isNaN (parseFloat (replaceFirst CHR '','' CHR ''.'' t))
          \<longrightarrow> averageText (Str ''7,5'') (Str t) =
              Some (replaceFirst CHR ''.'' CHR '',''
                      (toFixed1 (js_half (js_add (parseFloat (replaceFirst CHR '','' CHR ''.'' ''7,5''))
                                                 (parseFloat (replaceFirst CHR '','' CHR ''.'' t))))))"
    using th by simp
  from this [rule_format, of "''8''"]
  have 2: "averageText (Str ''7,5'') (Str ''8'') = Some ''7,8''"
    by (simp only: r p f isNaN_def) simp
  have "\<forall>cr. ruleMatches (Str ''7,5'') cr =
                   (case cf_condition cr of
                      Gt \<Rightarrow> js_gt (StringToNumber (replaceFirst CHR '','' CHR ''.'' ''7,5''))
                                   (Number_of (cf_value cr))
                    | Lt \<Rightarrow> js_lt (StringToNumber (replaceFirst CHR '','' CHR ''.'' ''7,5''))
                                   (Number_of (cf_value cr))
                    | Gte \<Rightarrow> js_ge (StringToNumber (replaceFirst CHR '','' CHR ''.'' ''7,5''))
                                    (Number_of (cf_value cr))
                    | Lte \<Rightarrow> js_le (StringToNumber (replaceFirst CHR '','' CHR ''.'' ''7,5''))
                                    (Number_of (cf_value cr))
                    | Eq \<Rightarrow> js_eq (StringToNumber (replaceFirst CHR '','' CHR ''.'' ''7,5''))
                                   (Number_of (cf_value cr))
                    | Contains \<Rightarrow> False)"
    using th by (simp add: p isNaN_def)
  from this [rule_format, of ruleGt5]
  have 3: "ruleMatches (Str ''7,5'') ruleGt5"
    by (simp add: p ruleGt5_def js_gt_def)
  show ?thesis using 1 2 3 by simp
qed

section \<open>The store is never emptied\<close>

lemma ids_replaceSheet:
  "sheet_id u = i \<Longrightarrow> map sheet_id (replaceSheet i u xs) = map sheet_id xs"
  by (induction xs) (auto simp: replaceSheet_def)

lemma storeOk_sheets:
  "storeOk st \<Longrightarrow> map sheet_id (sheets st') = map sheet_id (sheets st) \<Longrightarrow> storeOk st'"
  by (auto simp: storeOk_def)

lemma storeOk_same: "storeOk st \<Longrightarrow> sheets st' = sheets st \<Longrightarrow> storeOk st'"
  by (simp add: storeOk_def)

lemma storeOk_replace:
  "storeOk st \<Longrightarrow> sheet_id u = i \<Longrightarrow> sheets st' = replaceSheet i u (sheets st) \<Longrightarrow> storeOk st'"
  by (rule storeOk_sheets) (simp_all add: ids_replaceSheet)

lemma commitCell_id: "commitCell a r c v = Some u \<Longrightarrow> sheet_id u = sheet_id a"
  by (auto simp: commitCell_def split: option.splits)

lemma storeOk_append:
  "storeOk st \<Longrightarrow> distinct (map sheet_id new) \<Longrightarrow>
   sheet_id ` set new \<inter> sheet_id ` set (sheets st) = {} \<Longrightarrow>
   sheets st' = sheets st @ new \<Longrightarrow> storeOk st'"
  by (auto simp: storeOk_def)

lemma filter_other_nonempty:
  "distinct (map f xs) \<Longrightarrow> 2 \<le> length xs \<Longrightarrow> filter (\<lambda>s. f s \<noteq> t) xs \<noteq> []"
proof -
  assume d: "distinct (map f xs)" and l: "2 \<le> length xs"
  then obtain x y zs where xs: "xs = x # y # zs"
    by (cases xs; cases "tl xs") auto
  with d have "f x \<noteq> f y" by auto
  then have "f x \<noteq> t \<or> f y \<noteq> t" by auto
  then show ?thesis using xs by auto
qed

lemma storeOk_filter:
  assumes "storeOk st" and "2 \<le> length (sheets st)"
    and "sheets st' = filter (\<lambda>s. sheet_id s \<noteq> t) (sheets st)"
  shows "storeOk st'"
proof -
  have "sheets st' \<noteq> []"
    using assms filter_other_nonempty [of sheet_id "sheets st" t] by (simp add: storeOk_def)
  moreover have "distinct (map sheet_id (sheets st'))"
    using assms by (simp add: storeOk_def distinct_map_filter)
  ultimately show ?thesis by (simp add: storeOk_def)
qed

lemma storeOk_delete: "storeOk st \<Longrightarrow> storeOk (after (handleDeleteSheet confirmed st))"
proof -
  assume ok: "storeOk st"
  show ?thesis
  proof (cases "contextMenu st")
    case None
    with ok show ?thesis by (simp add: handleDeleteSheet_def)
  next
    case (Some t)
    let ?f = "filter (\<lambda>s. sheet_id s \<noteq> t) (sheets st)"
    let ?locked = "case find (\<lambda>s. sheet_id s = t) (sheets st) of
                Some sh \<Rightarrow> mayNotEdit st sh | None \<Rightarrow> False"
    show ?thesis
    proof (cases "?locked \<or> length (sheets st) \<le> 1 \<or> \<not> confirmed")
      case True
      then have "sheets (after (handleDeleteSheet confirmed st)) = sheets st"
        using Some by (auto simp: handleDeleteSheet_def alert_def)
      with ok show ?thesis by (rule storeOk_same)
    next
      case False
      then have two: "2 \<le> length (sheets st)" by simp
      have ne: "?f \<noteq> []"
        using ok two filter_other_nonempty [of sheet_id "sheets st" t] by (simp add: storeOk_def)
      then obtain x xs where f: "?f = x # xs" by (cases ?f) auto
      have "sheets (after (handleDeleteSheet confirmed st)) = ?f"
        using Some False f by (simp add: handleDeleteSheet_def)
      with ok two show ?thesis by (rule storeOk_filter)
    qed
  qed
qed

lemma distinct_insert_mid:
  "distinct (map f (A @ B)) \<Longrightarrow> f x \<notin> f ` set (A @ B) \<Longrightarrow> distinct (map f (A @ x # B))"
  by auto

lemma distinct_moved:
  assumes d: "distinct (map f xs)" and i: "i < length xs"
  shows "distinct (map f (take j (take i xs @ drop (Suc i) xs) @ [xs ! i] @
                          drop j (take i xs @ drop (Suc i) xs)))"
proof -
  define r where "r = take i xs @ drop (Suc i) xs"
  have xs: "xs = take i xs @ xs ! i # drop (Suc i) xs" using i by (rule id_take_nth_drop)
  have "distinct (map f (take i xs @ xs ! i # drop (Suc i) xs))" using d xs by simp
  then have r: "distinct (map f r)" and x: "f (xs ! i) \<notin> f ` set r"
    unfolding r_def by auto
  have "distinct (map f (take j r @ drop j r))" "f (xs ! i) \<notin> f ` set (take j r @ drop j r)"
    using r x by simp_all
  then have "distinct (map f (take j r @ xs ! i # drop j r))" by (rule distinct_insert_mid)
  then show ?thesis unfolding r_def by simp
qed

lemma storeOk_drag: "storeOk st \<Longrightarrow> storeOk (handleDragOver from index st)"
proof (cases "from = index \<or> length (sheets st) \<le> from")
  case True
  assume "storeOk st"
  with True show ?thesis by (auto simp: handleDragOver_def)
next
  case False
  assume ok: "storeOk st"
  from False have i: "from < length (sheets st)" by simp
  have "distinct (map sheet_id (sheets (handleDragOver from index st)))"
    using False distinct_moved [of sheet_id "sheets st" "from" index] ok i
    by (simp add: handleDragOver_def storeOk_def)
  moreover have "sheets (handleDragOver from index st) \<noteq> []"
    using False by (simp add: handleDragOver_def)
  ultimately show ?thesis by (simp add: storeOk_def)
qed

lemma storeOk_init: "storeOk st \<or> sheets st = [] \<Longrightarrow> storeOk (initEffect shared st)"
proof (cases "sheets st")
  case Nil
  then show ?thesis by (simp add: initEffect_def storeOk_def initialSheet_def)
next
  case (Cons x xs)
  assume "storeOk st \<or> sheets st = []"
  with Cons have ok: "storeOk st" by simp
  have "sheets (initEffect shared st) = sheets st"
    using Cons by (simp add: initEffect_def)
  with ok show ?thesis by (rule storeOk_same)
qed

lemma enumerate_ids:
  "map sheet_id (map (\<lambda>(i, k). sheetFor a g (gen i) k) (enumerate m ks)) =
   map gen [m..<m + length ks]"
proof (induction ks arbitrary: m)
  case Nil
  then show ?case by simp
next
  case (Cons k ks)
  have "[m..<m + length (k # ks)] = m # [Suc m..<Suc m + length ks]"
    by (subst upt_rec) simp
  then show ?case using Cons [of "Suc m"] by (simp add: sheetFor_def newSheet_def)
qed

lemma split_ids:
  assumes s: "splitSheetByColumn gen a c = Some new"
  shows "\<exists>n. map sheet_id new = map gen [0..<n]"
proof (cases "length (data a) < 2")
  case True
  with s have "new = []" by (simp add: splitSheetByColumn_def)
  then have "map sheet_id new = map gen [0..<0]" by simp
  then show ?thesis by blast
next
  case False
  show ?thesis
  proof (cases "groupRows c (tl (data a)) []")
    case None
    with s False show ?thesis by (simp add: splitSheetByColumn_def)
  next
    case (Some g)
    with s False
    have "new = map (\<lambda>(i, k). sheetFor a g (gen i) k) (enumerate 0 (objectKeys g))"
      by (simp add: splitSheetByColumn_def)
    then have "map sheet_id new = map gen [0..<0 + length (objectKeys g)]"
      using enumerate_ids [of a g gen 0 "objectKeys g"] by simp
    then show ?thesis by blast
  qed
qed

lemma split_fresh:
  assumes s: "splitSheetByColumn gen a c = Some new" and inj: "inj gen"
    and fresh: "range gen \<inter> sheet_id ` set (sheets st) = {}"
  shows "distinct (map sheet_id new) \<and> sheet_id ` set new \<inter> sheet_id ` set (sheets st) = {}"
proof -
  from s obtain n where n: "map sheet_id new = map gen [0..<n]" using split_ids by blast
  have d: "distinct (map sheet_id new)"
    unfolding n using inj by (simp add: distinct_map inj_on_def inj_def)
  have "sheet_id ` set new = set (map sheet_id new)" by simp
  then have "sheet_id ` set new \<subseteq> range gen" unfolding n by auto
  then have "sheet_id ` set new \<inter> sheet_id ` set (sheets st) = {}" using fresh by blast
  with d show ?thesis by simp
qed

lemma applySplit_sheets:
  "sheets (applySplit result st) = sheets st @ (case result of None \<Rightarrow> [] | Some new \<Rightarrow> new)"
  by (cases result) (simp_all add: applySplit_def alert_def)

lemma splitByHeader_sheets:
  "sheets (splitByHeader gen a headers inp st) = sheets st \<or>
   (\<exists>c new. splitSheetByColumn gen a c = Some new \<and>
       sheets (splitByHeader gen a headers inp st) = sheets st @ new)"
proof (cases "findHeader (toLowerCase (trim inp)) headers 0")
  case None
  then show ?thesis by (simp add: splitByHeader_def alert_def)
next
  case (Some c)
  show ?thesis
  proof (cases "splitSheetByColumn gen a c")
    case None
    with Some show ?thesis by (simp add: splitByHeader_def applySplit_sheets)
  next
    case (Some new)
    with \<open>findHeader (toLowerCase (trim inp)) headers 0 = Some c\<close>
    have "sheets (splitByHeader gen a headers inp st) = sheets st @ new"
      by (simp add: splitByHeader_def applySplit_sheets)
    with Some show ?thesis by blast
  qed
qed

lemma handleSplitClasses_cases:
  "handleSplitClasses gen userInput st = st \<or>
   handleSplitClasses gen userInput st = alert msgSplitError st \<or>
   (\<exists>a headers inp. handleSplitClasses gen userInput st = splitByHeader gen a headers inp st)"
proof (cases "activeSheet st")
  case None
  then show ?thesis by (simp add: handleSplitClasses_def)
next
  case a: (Some a)
  show ?thesis
  proof (cases "rowAt (data a) 0")
    case None
    with a show ?thesis by (simp add: handleSplitClasses_def)
  next
    case h: (Some headers)
    show ?thesis
    proof (cases userInput)
      case None
      with a h show ?thesis by (simp add: handleSplitClasses_def)
    next
      case (Some inp)
      with a h
      have "handleSplitClasses gen userInput st = st \<or>
            handleSplitClasses gen userInput st = alert msgSplitError st \<or>
            handleSplitClasses gen userInput st = splitByHeader gen a headers inp st"
        by (simp add: handleSplitClasses_def)
      then show ?thesis by blast
    qed
  qed
qed

lemma handleSplitClasses_sheets:
  "sheets (handleSplitClasses gen userInput st) = sheets st \<or>
   (\<exists>a c new. splitSheetByColumn gen a c = Some new \<and>
       sheets (handleSplitClasses gen userInput st) = sheets st @ new)"
proof -
  from handleSplitClasses_cases [of gen userInput st]
  consider "handleSplitClasses gen userInput st = st"
    | "handleSplitClasses gen userInput st = alert msgSplitError st"
    | a headers inp where "handleSplitClasses gen userInput st = splitByHeader gen a headers inp st"
    by blast
  then show ?thesis
  proof cases
    case 1
    then show ?thesis by simp
  next
    case 2
    then show ?thesis by (simp add: alert_def)
  next
    case 3
    then show ?thesis using splitByHeader_sheets [of gen a headers inp st] by auto
  qed
qed

lemma storeOk_split:
  assumes ok: "storeOk st" and inj: "inj gen"
    and fresh: "range gen \<inter> sheet_id ` set (sheets st) = {}"
  shows "storeOk (handleSplitClasses gen userInput st)"
proof -
  from handleSplitClasses_sheets [of gen userInput st]
  show ?thesis
  proof
    assume "sheets (handleSplitClasses gen userInput st) = sheets st"
    with ok show ?thesis by (rule storeOk_same)
  next
    assume "\<exists>a c new. splitSheetByColumn gen a c = Some new \<and>
       sheets (handleSplitClasses gen userInput st) = sheets st @ new"
    then obtain a c new where s: "splitSheetByColumn gen a c = Some new"
      and e: "sheets (handleSplitClasses gen userInput st) = sheets st @ new" by blast
    from split_fresh [OF s inj fresh]
    have d: "distinct (map sheet_id new)"
      and f: "sheet_id ` set new \<inter> sheet_id ` set (sheets st) = {}" by simp_all
    from ok d f e show ?thesis by (rule storeOk_append)
  qed
qed
lemma handleUnlockSheet_sheets: "sheets (handleUnlockSheet now st) = sheets st"
  by (simp add: handleUnlockSheet_def grant_def split: option.splits)

lemma handleSimulateLock_sheets: "sheets (handleSimulateLock st) = sheets st"
  by (simp add: handleSimulateLock_def split: option.splits)

lemma handleCreateAccessCode_ids:
  "map sheet_id (sheets (handleCreateAccessCode now n unit rawEdit rawView st)) =
   map sheet_id (sheets st)"
  by (simp add: handleCreateAccessCode_def ids_replaceSheet split: option.splits)

lemma handleRemoveAccessCode_ids:
  "map sheet_id (sheets (handleRemoveAccessCode st)) = map sheet_id (sheets st)"
  by (simp add: handleRemoveAccessCode_def ids_replaceSheet split: option.splits)

lemma updateCell_ids:
  "map sheet_id (sheets (after (updateCell H r c v st))) = map sheet_id (sheets st)"
proof (cases "activeSheet st")
  case None
  then show ?thesis by (simp add: updateCell_def)
next
  case a: (Some a)
  show ?thesis
  proof (cases "commitCell a r c v")
    case None
    with a show ?thesis by (simp add: updateCell_def alert_def split: option.splits)
  next
    case (Some u)
    with a commitCell_id [OF Some] show ?thesis
      by (simp add: updateCell_def alert_def ids_replaceSheet split: option.splits)
  qed
qed

lemma rename_ids_map:
  "map sheet_id (map (\<lambda>s. if sheet_id s = i then s\<lparr>sheet_name := n\<rparr> else s) xs) = map sheet_id xs"
  by (induction xs) simp_all

lemma handleRenameSheet_ids:
  "map sheet_id (sheets (handleRenameSheet newName st)) = map sheet_id (sheets st)"
proof (cases "contextMenu st")
  case None
  then show ?thesis by (simp add: handleRenameSheet_def)
next
  case t: (Some target)
  show ?thesis
  proof (cases "find (\<lambda>s. sheet_id s = target) (sheets st)")
    case None
    with t show ?thesis by (simp add: handleRenameSheet_def)
  next
    case s: (Some sh)
    show ?thesis
    proof (cases newName)
      case None
      with t s show ?thesis by (simp add: handleRenameSheet_def alert_def)
    next
      case (Some n)
      with t s show ?thesis
        using rename_ids_map [of "sheet_id sh" "trim n" "sheets st"]
        by (simp add: handleRenameSheet_def alert_def)
    qed
  qed
qed
lemma storeOk_duplicate:
  assumes ok: "storeOk st" and fresh: "newId \<notin> sheet_id ` set (sheets st)"
  shows "storeOk (handleDuplicateSheet newId st)"
proof (cases "contextMenu st")
  case None
  with ok show ?thesis by (simp add: handleDuplicateSheet_def)
next
  case t: (Some target)
  show ?thesis
  proof (cases "find (\<lambda>s. sheet_id s = target) (sheets st)")
    case None
    with t ok show ?thesis by (simp add: handleDuplicateSheet_def)
  next
    case (Some sh)
    with t have e: "sheets (handleDuplicateSheet newId st) = sheets st @ [duplicateOf newId sh]"
      by (simp add: handleDuplicateSheet_def)
    have i: "sheet_id (duplicateOf newId sh) = newId" by (simp add: duplicateOf_def)
    from ok show ?thesis
    proof (rule storeOk_append)
      show "distinct (map sheet_id [duplicateOf newId sh])" by simp
      show "sheet_id ` set [duplicateOf newId sh] \<inter> sheet_id ` set (sheets st) = {}"
        using fresh i by simp
      show "sheets (handleDuplicateSheet newId st) = sheets st @ [duplicateOf newId sh]"
        by (rule e)
    qed
  qed
qed

lemma storeOk_add:
  assumes ok: "storeOk st" and fresh: "newId \<notin> sheet_id ` set (sheets st)"
  shows "storeOk (addSheet newId st)"
proof (cases "currentAccess st = Some View")
  case True
  with ok show ?thesis by (simp add: addSheet_def)
next
  case False
  with ok fresh show ?thesis by (simp add: addSheet_def storeOk_def)
qed

lemma storeOk_upload:
  assumes ok: "storeOk st" and d: "distinct (map sheet_id new)"
    and fresh: "sheet_id ` set new \<inter> sheet_id ` set (sheets st) = {}"
  shows "storeOk (handleFileUpload (Some new) st)"
proof (cases new)
  case Nil
  with ok show ?thesis by (simp add: handleFileUpload_def alert_def storeOk_def)
next
  case (Cons p ps)
  then have e: "sheets (handleFileUpload (Some new) st) = sheets st @ new"
    by (simp add: handleFileUpload_def)
  from ok d fresh e show ?thesis by (rule storeOk_append)
qed

lemma storeOk_step: "step st st' \<Longrightarrow> storeOk st \<Longrightarrow> storeOk st'"
proof (induction rule: step.induct)
  case (init st shared)
  then show ?case by (simp add: storeOk_init)
next
  case (select st i)
  then show ?case by (simp add: storeOk_def)
next
  case (menu st m)
  then show ?case by (simp add: storeOk_def)
next
  case (typed st inp)
  then show ?case by (simp add: storeOk_def)
next
  case (unlock st now)
  then show ?case by (rule storeOk_same) (rule handleUnlockSheet_sheets)
next
  case (lock st)
  then show ?case by (rule storeOk_same) (rule handleSimulateLock_sheets)
next
  case (issue rawEdit rawView st now n unit)
  from issue(3) show ?case by (rule storeOk_sheets) (rule handleCreateAccessCode_ids)
next
  case (revoke st)
  then show ?case by (rule storeOk_sheets) (rule handleRemoveAccessCode_ids)
next
  case (edit st H r c v)
  then show ?case by (rule storeOk_sheets) (rule updateCell_ids)
next
  case (rename st newName)
  then show ?case by (rule storeOk_sheets) (rule handleRenameSheet_ids)
next
  case (delete st confirmed)
  then show ?case by (rule storeOk_delete)
next
  case (drag st "from" index)
  then show ?case by (rule storeOk_drag)
next
  case (duplicate newId st)
  then show ?case by (simp add: storeOk_duplicate)
next
  case (add newId st)
  then show ?case by (simp add: storeOk_add)
next
  case (upload new st)
  then show ?case by (simp add: storeOk_upload)
next
  case (uploadFailed st)
  then show ?case by (simp add: handleFileUpload_def alert_def storeOk_def)
next
  case (split gen st userInput)
  then show ?case by (simp add: storeOk_split)
next
  case (replaced updated i st' st)
  from replaced(3) replaced(1) replaced(2) show ?case by (rule storeOk_replace)
qed

lemma storeOk_reachable: "reachable st st' \<Longrightarrow> storeOk st \<Longrightarrow> storeOk st'"
  unfolding reachable_def by (induction rule: rtranclp_induct) (auto intro: storeOk_step)

lemma delete_last_refused:
  assumes m: "contextMenu st = Some target" and one: "length (sheets st) = 1"
  shows "handleDeleteSheet confirmed st = Returned ((alert msgOnlySheet st)\<lparr>contextMenu := None\<rparr>) \<or>
         handleDeleteSheet confirmed st = Returned ((alert msgEditorsDelete st)\<lparr>contextMenu := None\<rparr>)"
  using m one by (simp add: handleDeleteSheet_def)
lemma ids_Nil: "map sheet_id xs = map sheet_id [] \<Longrightarrow> xs = []"
  by simp

lemma empty_delete: "sheets st = [] \<Longrightarrow> sheets (after (handleDeleteSheet confirmed st)) = []"
  by (cases "contextMenu st") (simp_all add: handleDeleteSheet_def alert_def)

lemma empty_duplicate: "sheets st = [] \<Longrightarrow> handleDuplicateSheet newId st = st"
  by (cases "contextMenu st") (simp_all add: handleDuplicateSheet_def)

lemma empty_split: "sheets st = [] \<Longrightarrow> handleSplitClasses gen userInput st = st"
  by (cases "activeSheetId st") (simp_all add: handleSplitClasses_def activeSheet_def)

lemma empty_upload:
  "sheets st = [] \<Longrightarrow> distinct (map sheet_id new) \<Longrightarrow>
   sheets (handleFileUpload (Some new) st) = [] \<or> storeOk (handleFileUpload (Some new) st)"
  by (cases new) (simp_all add: handleFileUpload_def alert_def storeOk_def)

lemma empty_step: "step st st' \<Longrightarrow> sheets st = [] \<Longrightarrow> sheets st' = [] \<or> storeOk st'"
proof (induction rule: step.induct)
  case (init st shared)
  then show ?case by (simp add: storeOk_init)
next
  case (select st i)
  then show ?case by simp
next
  case (menu st m)
  then show ?case by simp
next
  case (typed st inp)
  then show ?case by simp
next
  case (unlock st now)
  then show ?case by (simp add: handleUnlockSheet_sheets)
next
  case (lock st)
  then show ?case by (simp add: handleSimulateLock_sheets)
next
  case (issue rawEdit rawView st now n unit)
  from issue(3) handleCreateAccessCode_ids [of now n unit rawEdit rawView st]
  show ?case by simp
next
  case (revoke st)
  with handleRemoveAccessCode_ids [of st] show ?case by simp
next
  case (edit st H r c v)
  with updateCell_ids [of H r c v st] show ?case by simp
next
  case (rename st newName)
  with handleRenameSheet_ids [of newName st] show ?case by simp
next
  case (delete st confirmed)
  then show ?case by (simp add: empty_delete)
next
  case (drag st "from" index)
  then show ?case by (simp add: handleDragOver_def)
next
  case (duplicate newId st)
  then show ?case by (simp add: empty_duplicate)
next
  case (add newId st)
  then show ?case by (simp add: addSheet_def storeOk_def)
next
  case (upload new st)
  then show ?case by (simp add: empty_upload)
next
  case (uploadFailed st)
  then show ?case by (simp add: handleFileUpload_def alert_def)
next
  case (split gen st userInput)
  then show ?case by (simp add: empty_split)
next
  case (replaced updated i st' st)
  then show ?case by (simp add: replaceSheet_def)
qed

lemma built_step:
  "step st st' \<Longrightarrow> sheets st = [] \<or> storeOk st \<Longrightarrow> sheets st' = [] \<or> storeOk st'"
  using empty_step storeOk_step by blast

lemma built_reachable:
  "reachable st st' \<Longrightarrow> sheets st = [] \<or> storeOk st \<Longrightarrow> sheets st' = [] \<or> storeOk st'"
  unfolding reachable_def by (induction rule: rtranclp_induct) (auto dest: built_step)

lemma activeSheet_member: "activeSheet st = Some a \<Longrightarrow> a \<in> set (sheets st)"
  by (auto simp: activeSheet_def find_Some_iff split: option.splits)

lemma refused_frame:
  "sheets ((alert msg st)\<lparr>contextMenu := None\<rparr>) = sheets st \<and>
   activeSheetId ((alert msg st)\<lparr>contextMenu := None\<rparr>) = activeSheetId st \<and>
   activeSheet ((alert msg st)\<lparr>contextMenu := None\<rparr>) = activeSheet st"
  by (cases "activeSheetId st") (simp_all add: alert_def activeSheet_def)

text \<open>
  Claim C6. When \<open>handleDeleteSheet\<close> runs on a store of exactly one sheet, the
  collection of sheets and the active identifier are left as they were, so an active
  sheet that resolved resolves to the same member of the store; when the context menu
  is open the handler returns after one alert, the message about the only sheet or,
  for a sheet the user may not edit, the message that only editors delete. A store
  that holds a sheet and whose sheets have distinct identifiers stays so under every
  sequence of events, hence is never emptied, and every store the application builds
  from the empty one is of that kind once it holds a sheet.
\<close>

theorem store_never_emptied:
  "(length (sheets st) = 1 \<longrightarrow>
      sheets (after (handleDeleteSheet confirmed st)) = sheets st \<and>
      activeSheetId (after (handleDeleteSheet confirmed st)) = activeSheetId st \<and>
      (\<forall>a. activeSheet st = Some a \<longrightarrow>
           activeSheet (after (handleDeleteSheet confirmed st)) = Some a \<and>
           a \<in> set (sheets (after (handleDeleteSheet confirmed st)))) \<and>
      (\<forall>target. contextMenu st = Some target \<longrightarrow>
           handleDeleteSheet confirmed st =
             Returned ((alert msgOnlySheet st)\<lparr>contextMenu := None\<rparr>) \<or>
           handleDeleteSheet confirmed st =
             Returned ((alert msgEditorsDelete st)\<lparr>contextMenu := None\<rparr>))) \<and>
   (storeOk st \<and> reachable st st' \<longrightarrow> sheets st' \<noteq> [] \<and> storeOk st') \<and>
   (sheets st0 = [] \<and> reachable st0 st \<and> sheets st \<noteq> [] \<and> reachable st st' \<longrightarrow>
      sheets st' \<noteq> [])"
proof (intro conjI impI)
  assume one: "length (sheets st) = 1"
  have f: "sheets (after (handleDeleteSheet confirmed st)) = sheets st \<and>
        activeSheetId (after (handleDeleteSheet confirmed st)) = activeSheetId st \<and>
        activeSheet (after (handleDeleteSheet confirmed st)) = activeSheet st"
  proof (cases "contextMenu st")
    case None
    then show ?thesis by (simp add: handleDeleteSheet_def)
  next
    case (Some target)
    from delete_last_refused [OF Some one, of confirmed] show ?thesis
    proof
      assume "handleDeleteSheet confirmed st =
        Returned ((alert msgOnlySheet st)\<lparr>contextMenu := None\<rparr>)"
      then show ?thesis using refused_frame [of msgOnlySheet st] by simp
    next
      assume "handleDeleteSheet confirmed st =
        Returned ((alert msgEditorsDelete st)\<lparr>contextMenu := None\<rparr>)"
      then show ?thesis using refused_frame [of msgEditorsDelete st] by simp
    qed
  qed
  from f show "sheets (after (handleDeleteSheet confirmed st)) = sheets st" by simp
  from f show "activeSheetId (after (handleDeleteSheet confirmed st)) = activeSheetId st"
    by simp
  show "\<forall>a. activeSheet st = Some a \<longrightarrow>
           activeSheet (after (handleDeleteSheet confirmed st)) = Some a \<and>
           a \<in> set (sheets (after (handleDeleteSheet confirmed st)))"
    using f activeSheet_member [of st] by simp
  show "\<forall>target. contextMenu st = Some target \<longrightarrow>
           handleDeleteSheet confirmed st =
             Returned ((alert msgOnlySheet st)\<lparr>contextMenu := None\<rparr>) \<or>
           handleDeleteSheet confirmed st =
             Returned ((alert msgEditorsDelete st)\<lparr>contextMenu := None\<rparr>)"
    using delete_last_refused [OF _ one, of _ confirmed] by blast
next
  assume a: "storeOk st \<and> reachable st st'"
  then have "storeOk st'" using storeOk_reachable by blast
  then show "storeOk st'" .
  then show "sheets st' \<noteq> []" by (simp add: storeOk_def)
next
  assume a: "sheets st0 = [] \<and> reachable st0 st \<and> sheets st \<noteq> [] \<and> reachable st st'"
  then have "sheets st = [] \<or> storeOk st" using built_reachable [of st0 st] by blast
  with a have "storeOk st" by simp
  with a have "storeOk st'" using storeOk_reachable by blast
  then show "sheets st' \<noteq> []" by (simp add: storeOk_def)
qed

text \<open>
  From the empty store the first effect creates the sheet \<open>init\<close>; the context menu is
  opened on it and the deletion is confirmed. The handler answers with the message
  about the only sheet and the store still holds the sheet, which is still the active
  one.
\<close>

theorem store_never_emptied_witness:
  "length (sheets deleteRequested) = 1 \<and>
   contextMenu deleteRequested = Some ''init'' \<and>
   handleDeleteSheet True deleteRequested =
     Returned ((alert msgOnlySheet deleteRequested)\<lparr>contextMenu := None\<rparr>) \<and>
   sheets (after (handleDeleteSheet True deleteRequested)) = [initialSheet] \<and>
   activeSheet (after (handleDeleteSheet True deleteRequested)) = Some initialSheet \<and>
   sheets emptyState = [] \<and>
   reachable emptyState deleteRequested \<and>
   storeOk deleteRequested \<and>
   reachable deleteRequested (after (handleDeleteSheet True deleteRequested)) \<and>
   sheets (after (handleDeleteSheet True deleteRequested)) \<noteq> []"
proof -
  have s: "sheets deleteRequested = [initialSheet]"
    by (simp add: deleteRequested_def firstState_def initEffect_def emptyState_def)
  have m: "contextMenu deleteRequested = Some ''init''" by (simp add: deleteRequested_def)
  have i: "sheet_id initialSheet = ''init''" by (simp add: initialSheet_def)
  have act: "activeSheet deleteRequested = Some initialSheet"
    by (simp add: deleteRequested_def firstState_def initEffect_def emptyState_def
        activeSheet_def i)
  have ok: "storeOk deleteRequested" by (simp add: storeOk_def s)
  have e: "sheets emptyState = []" by (simp add: emptyState_def)
  have "step emptyState firstState" unfolding firstState_def by (rule step.init)
  moreover have "step firstState deleteRequested" unfolding deleteRequested_def by (rule step.menu)
  ultimately have r0: "reachable emptyState deleteRequested"
    unfolding reachable_def by (rule converse_rtranclp_into_rtranclp [OF _ r_into_rtranclp])
  have r1: "reachable deleteRequested (after (handleDeleteSheet True deleteRequested))"
    unfolding reachable_def by (rule r_into_rtranclp) (rule step.delete)
  have h: "\<not> hasCodes initialSheet" by (simp add: hasCodes_def initialSheet_def present_def)
  have d: "handleDeleteSheet True deleteRequested =
     Returned ((alert msgOnlySheet deleteRequested)\<lparr>contextMenu := None\<rparr>)"
    by (simp add: handleDeleteSheet_def m s i mayNotEdit_def h)
  note t = store_never_emptied [of deleteRequested True
      "after (handleDeleteSheet True deleteRequested)" emptyState]
  from t s have 1: "sheets (after (handleDeleteSheet True deleteRequested)) = [initialSheet]"
    by simp
  from t s act have 2: "activeSheet (after (handleDeleteSheet True deleteRequested)) = Some initialSheet"
    by simp
  from t ok r1 have 3: "sheets (after (handleDeleteSheet True deleteRequested)) \<noteq> []"
    by blast
  from s m d 1 2 e r0 ok r1 3 show ?thesis by simp
qed
end
